theory Spec2Isabelle
  imports Complex_Main "HOL-Library.Multiset" "HOL-Library.Log_Nat"
begin

section \<open>Conventions of the embedding\<close>

text \<open>
  The development embeds two Python modules:
  \<^item> \<^verbatim>\<open>validator/control_node/src/cycle/schedule_synthetic_queries.py\<close>, the scheduler of
    synthetic queries;
  \<^item> \<^verbatim>\<open>validator/db/src/sql/nodes.py\<close>, the data access layer of the node tables.

  Python's \<^verbatim>\<open>int\<close> is \<^typ>\<open>int\<close>. A Python \<^verbatim>\<open>float\<close> is the \<^typ>\<open>real\<close> it denotes.
  The arithmetic that builds the schedules (volume, scoring period, interval, first
  schedule time) rounds every result to an IEEE 754 double, as defined in the next
  section; overflow to infinity and NaN are outside the model. Inside the loop the code
  only adds and subtracts clock readings and compares them; these sums are taken exact.
  Every exception the modelled code can raise is a value of \<open>error\<close>, and a function
  that can raise returns \<open>error + 'a\<close>. Logging and the OpenTelemetry gauges are write-only and never read
  by the code; they are left out. The clock (\<^verbatim>\<open>time.time()\<close>), the random generator
  and the writes of other parties to the shared store are inputs of the model.

  Names follow the source; a leading underscore is dropped, since an Isabelle name
  cannot start with one.
\<close>

datatype error =
    ZeroDivisionError
  | IndexError
  | JSONDecodeError
  | AttributeError
  | ValueError_no_node_found int int

section \<open>Floating-point arithmetic\<close>

text \<open>
  The binary64 format: 53 bits of significand and an exponent of at least \<open>-1022\<close>. The
  doubles of exponent \<open>E\<close> are the multiples of \<open>2 powi (E - 52)\<close> between
  \<open>2 powi E\<close> and \<open>2 powi (E + 1)\<close>; below \<open>2 powi (-1022)\<close> they are the multiples of
  \<open>2 powi (-1074)\<close>. \<open>binade x\<close> is the integer \<open>E\<close> with \<open>2 powi E \<le> \<bar>x\<bar> < 2 powi (E + 1)\<close>,
  read off the bit length of the integer part of \<open>\<bar>x\<bar>\<close> or of its inverse.
  \<open>round_double\<close> is the rounding of every operation: to the nearest double, a tie going
  to the even significand. The exponent is not bounded above, so a
  result beyond the largest double is rounded like any other instead of becoming
  infinite.
\<close>

definition round_half_even :: "real \<Rightarrow> int" where
  "round_half_even y =
     (if y - of_int \<lfloor>y\<rfloor> < 1 / 2 then \<lfloor>y\<rfloor>
      else if 1 / 2 < y - of_int \<lfloor>y\<rfloor> then \<lfloor>y\<rfloor> + 1
      else if even \<lfloor>y\<rfloor> then \<lfloor>y\<rfloor> else \<lfloor>y\<rfloor> + 1)"

definition binade :: "real \<Rightarrow> int" where
  "binade x =
     (if 1 \<le> \<bar>x\<bar> then bitlen \<lfloor>\<bar>x\<bar>\<rfloor> - 1 else - bitlen (\<lceil>1 / \<bar>x\<bar>\<rceil> - 1))"

definition double_exponent :: "real \<Rightarrow> int" where
  "double_exponent x = max (binade x) (- 1022)"

definition round_to_grid :: "int \<Rightarrow> real \<Rightarrow> real" where
  "round_to_grid e x = of_int (round_half_even (x / 2 powi e)) * 2 powi e"

definition round_double :: "real \<Rightarrow> real" where
  "round_double x = (if x = 0 then 0 else round_to_grid (double_exponent x - 52) x)"

text \<open>
  The operations of Python on floats: \<^verbatim>\<open>x + y\<close>, \<^verbatim>\<open>x * y\<close>, \<^verbatim>\<open>x / y\<close>, which raises
  \<^verbatim>\<open>ZeroDivisionError\<close> on a zero divisor, and the conversion of an \<^verbatim>\<open>int\<close> operand.
  The builtin \<^verbatim>\<open>sum\<close> starts from the integer 0 and adds the items from left to right,
  rounding after each addition.
\<close>

definition float_add :: "real \<Rightarrow> real \<Rightarrow> real" where
  "float_add x y = round_double (x + y)"

definition float_mul :: "real \<Rightarrow> real \<Rightarrow> real" where
  "float_mul x y = round_double (x * y)"

definition float_truediv :: "real \<Rightarrow> real \<Rightarrow> error + real" where
  "float_truediv x y = (if y = 0 then Inl ZeroDivisionError else Inr (round_double (x / y)))"

definition float_of_int :: "int \<Rightarrow> real" where
  "float_of_int n = round_double (of_int n)"

definition builtin_sum :: "real list \<Rightarrow> real" where
  "builtin_sum xs = foldl float_add 0 xs"

section \<open>Scheduler: data\<close>

text \<open>
  \<^verbatim>\<open>validator.models.Contender\<close> is defined outside the two modules; only the two fields
  the scheduler reads are kept. The field \<^verbatim>\<open>task\<close> is called \<open>contender_task\<close>
  because \<open>task\<close> names the field of \<open>TaskScheduleInfo\<close>.
\<close>

record Contender =
  contender_task :: string
  capacity_to_score :: real

record TaskScheduleInfo =
  task :: string
  total_requests :: int
  interval :: real
  next_schedule_time :: real
  remaining_requests :: int

text \<open>\<^verbatim>\<open>TaskScheduleInfo.__lt__\<close>: the only comparison the heap uses.\<close>

definition lt :: "TaskScheduleInfo \<Rightarrow> TaskScheduleInfo \<Rightarrow> bool" where
  "lt self other \<longleftrightarrow> next_schedule_time self < next_schedule_time other"

text \<open>
  Modelled from the spec: the task configuration registry \<^verbatim>\<open>core.task_config\<close> is not
  part of the two modules. The spec describes a per-task record with the divisor
  \<^verbatim>\<open>volume_to_requests_conversion\<close> and an enabled/disabled flag, looked up by task
  identifier; "absence or disablement yields zero scheduled requests". The registry is a
  map; \<open>get_enabled_task_config\<close> answers \<open>None\<close> for a task that is missing or
  disabled.
\<close>

record TaskConfig =
  enabled :: bool
  volume_to_requests_conversion :: real

type_synonym task_configs = "string \<rightharpoonup> TaskConfig"

definition get_enabled_task_config :: "task_configs \<Rightarrow> string \<Rightarrow> TaskConfig option" where
  "get_enabled_task_config reg t =
     (case reg t of
        None \<Rightarrow> None
      | Some cfg \<Rightarrow> if enabled cfg then Some cfg else None)"

text \<open>
  \<^verbatim>\<open>Config\<close>: the handles of the two stores are the states passed explicitly below; the
  one plain field is the multiplier.
\<close>

record Config =
  scoring_period_time_multiplier :: real

section \<open>Scheduler: volume and first schedule time\<close>

text \<open>Python's \<^verbatim>\<open>int(x)\<close> on a float truncates towards zero.\<close>

definition py_int :: "real \<Rightarrow> int" where
  "py_int x = (if 0 \<le> x then \<lfloor>x\<rfloor> else \<lceil>x\<rceil>)"

text \<open>
  \<^verbatim>\<open>_group_contenders_by_task\<close>: a Python dict keeps insertion order, and
  \<^verbatim>\<open>task_groups.items()\<close> is iterated later, so the dict is an association list with
  distinct keys. \<open>group_append\<close> is \<^verbatim>\<open>task_groups[task].append(contender)\<close>, creating
  the entry at the end when the key is new.
\<close>

fun group_append :: "string \<Rightarrow> Contender \<Rightarrow> (string \<times> Contender list) list
    \<Rightarrow> (string \<times> Contender list) list" where
  "group_append t c [] = [(t, [c])]"
| "group_append t c ((k, cs) # groups) =
     (if k = t then (k, cs @ [c]) # groups else (k, cs) # group_append t c groups)"

definition group_contenders_by_task :: "task_configs \<Rightarrow> Contender list
    \<Rightarrow> (string \<times> Contender list) list" where
  "group_contenders_by_task reg contenders =
     foldl (\<lambda>task_groups contender.
              if reg (contender_task contender) = None then task_groups
              else group_append (contender_task contender) contender task_groups)
       [] contenders"

text \<open>
  \<^verbatim>\<open>_calculate_task_requests\<close>: the sum, the product and the quotient are float
  operations, and the quotient raises \<^verbatim>\<open>ZeroDivisionError\<close> on a zero divisor.
\<close>

definition calculate_task_requests :: "task_configs \<Rightarrow> string \<Rightarrow> Contender list \<Rightarrow> Config
    \<Rightarrow> error + int" where
  "calculate_task_requests reg t contenders config =
     (case get_enabled_task_config reg t of
        None \<Rightarrow> Inr 0
      | Some task_config \<Rightarrow>
          let total_capacity =
                float_mul (builtin_sum (map capacity_to_score contenders))
                  (scoring_period_time_multiplier config)
          in case float_truediv total_capacity (volume_to_requests_conversion task_config) of
               Inl e \<Rightarrow> Inl e
             | Inr ratio \<Rightarrow> Inr (py_int ratio))"

text \<open>
  \<^verbatim>\<open>_get_initial_schedule_time\<close>; \<open>rnd\<close> is the value \<^verbatim>\<open>random.random()\<close> returned, a
  float of the half-open unit interval.
\<close>

definition get_initial_schedule_time :: "real \<Rightarrow> real \<Rightarrow> real \<Rightarrow> real" where
  "get_initial_schedule_time rnd current_time interval' =
     float_add current_time (float_mul rnd interval')"

section \<open>The heap of the standard library\<close>

text \<open>
  \<^verbatim>\<open>heapq\<close> keeps the heap in a list. \<open>siftdown_loop\<close> is the \<^verbatim>\<open>while\<close> loop of
  \<^verbatim>\<open>heapq._siftdown\<close> followed by its last assignment, \<open>siftup_loop\<close> the loop of
  \<^verbatim>\<open>heapq._siftup\<close>.
\<close>

function siftdown_loop :: "TaskScheduleInfo list \<Rightarrow> nat \<Rightarrow> nat \<Rightarrow> TaskScheduleInfo
    \<Rightarrow> TaskScheduleInfo list" where
  "siftdown_loop heap startpos pos newitem =
     (if startpos < pos then
        (if lt newitem (heap ! ((pos - 1) div 2))
         then siftdown_loop (heap[pos := heap ! ((pos - 1) div 2)]) startpos ((pos - 1) div 2) newitem
         else heap[pos := newitem])
      else heap[pos := newitem])"
  by pat_completeness auto
termination
  by (relation "measure (\<lambda>(heap, startpos, pos, newitem). pos)") auto

definition siftdown :: "TaskScheduleInfo list \<Rightarrow> nat \<Rightarrow> nat \<Rightarrow> TaskScheduleInfo list" where
  "siftdown heap startpos pos = siftdown_loop heap startpos pos (heap ! pos)"

definition smaller_child :: "TaskScheduleInfo list \<Rightarrow> nat \<Rightarrow> nat \<Rightarrow> nat" where
  "smaller_child heap endpos childpos =
     (if childpos + 1 < endpos \<and> \<not> lt (heap ! childpos) (heap ! (childpos + 1))
      then childpos + 1 else childpos)"

function siftup_loop :: "TaskScheduleInfo list \<Rightarrow> nat \<Rightarrow> nat \<Rightarrow> TaskScheduleInfo list \<times> nat" where
  "siftup_loop heap endpos pos =
     (if 2 * pos + 1 < endpos then
        siftup_loop (heap[pos := heap ! smaller_child heap endpos (2 * pos + 1)]) endpos
          (smaller_child heap endpos (2 * pos + 1))
      else (heap, pos))"
  by pat_completeness auto
termination
  by (relation "measure (\<lambda>(heap, endpos, pos). endpos - pos)")
     (auto simp: smaller_child_def)

definition siftup :: "TaskScheduleInfo list \<Rightarrow> nat \<Rightarrow> TaskScheduleInfo list" where
  "siftup heap pos =
     (let newitem = heap ! pos;
          (heap', pos') = siftup_loop heap (length heap) pos
      in siftdown (heap'[pos' := newitem]) pos pos')"

definition heappush :: "TaskScheduleInfo list \<Rightarrow> TaskScheduleInfo \<Rightarrow> TaskScheduleInfo list" where
  "heappush heap item = siftdown (heap @ [item]) 0 (length heap)"

text \<open>\<^verbatim>\<open>heapq.heappop\<close> raises \<^verbatim>\<open>IndexError\<close> on the empty list: \<open>None\<close> here.\<close>

definition heappop :: "TaskScheduleInfo list \<Rightarrow> (TaskScheduleInfo \<times> TaskScheduleInfo list) option" where
  "heappop heap =
     (if heap = [] then None
      else let lastelt = last heap; heap' = butlast heap
           in if heap' \<noteq> [] then Some (heap' ! 0, siftup (heap'[0 := lastelt]) 0)
              else Some (lastelt, heap'))"

text \<open>
  \<^verbatim>\<open>[heapq.heappop(task_schedules) for _ in range(len(task_schedules))]\<close>: \<open>n\<close> pops,
  the popped entries in order, and the list that is left. The comprehension never pops
  more entries than the list holds, so the branch \<open>None\<close> is not reached from there.
\<close>

fun pop_n :: "nat \<Rightarrow> TaskScheduleInfo list \<Rightarrow> TaskScheduleInfo list \<times> TaskScheduleInfo list" where
  "pop_n 0 heap = ([], heap)"
| "pop_n (Suc n) heap =
     (case heappop heap of
        None \<Rightarrow> ([], heap)
      | Some (item, heap') \<Rightarrow> (item # fst (pop_n n heap'), snd (pop_n n heap')))"

section \<open>Scheduler: building the schedules\<close>

text \<open>
  \<^verbatim>\<open>_initialize_task_schedules\<close>. \<open>SCORING_PERIOD_TIME\<close> is the constant of
  \<^verbatim>\<open>core.constants\<close>, a parameter here. \<open>clock t\<close> is what \<^verbatim>\<open>time.time()\<close> returns and
  \<open>rnd t\<close> what \<^verbatim>\<open>random.random()\<close> returns in the iteration of task \<open>t\<close>; the keys of
  a dict are distinct, so each task has one iteration. \<open>initialize_loop\<close> is the
  \<^verbatim>\<open>for\<close> loop over \<^verbatim>\<open>task_groups.items()\<close>, with the list \<^verbatim>\<open>schedules\<close> as accumulator.
\<close>

fun initialize_loop :: "task_configs \<Rightarrow> Config \<Rightarrow> real \<Rightarrow> (string \<Rightarrow> real) \<Rightarrow> (string \<Rightarrow> real)
    \<Rightarrow> (string \<times> Contender list) list \<Rightarrow> TaskScheduleInfo list
    \<Rightarrow> error + TaskScheduleInfo list" where
  "initialize_loop reg config scoring_period_time clock rnd [] schedules = Inr schedules"
| "initialize_loop reg config scoring_period_time clock rnd ((t, contenders) # task_groups) schedules =
     (case calculate_task_requests reg t contenders config of
        Inl e \<Rightarrow> Inl e
      | Inr requests \<Rightarrow>
          if 0 < requests then
            (case float_truediv scoring_period_time (float_of_int (requests + 1)) of
               Inl e \<Rightarrow> Inl e
             | Inr interval' \<Rightarrow>
                 initialize_loop reg config scoring_period_time clock rnd task_groups
                   (heappush schedules
                      \<lparr>task = t,
                       total_requests = requests,
                       interval = interval',
                       next_schedule_time = get_initial_schedule_time (rnd t) (clock t) interval',
                       remaining_requests = requests\<rparr>))
          else initialize_loop reg config scoring_period_time clock rnd task_groups schedules)"

definition initialize_task_schedules :: "real \<Rightarrow> task_configs \<Rightarrow> (string \<Rightarrow> real) \<Rightarrow> (string \<Rightarrow> real)
    \<Rightarrow> (string \<times> Contender list) list \<Rightarrow> Config \<Rightarrow> error + TaskScheduleInfo list" where
  "initialize_task_schedules SCORING_PERIOD_TIME reg clock rnd task_groups config =
     initialize_loop reg config (float_mul SCORING_PERIOD_TIME (scoring_period_time_multiplier config))
       clock rnd task_groups []"

section \<open>Scheduler: the shared store\<close>

text \<open>
  The Redis store, as far as the scheduler touches it: the string keys holding the
  remaining counters, each value the integer its string encodes, and the list under
  \<^verbatim>\<open>QUERY_QUEUE_KEY\<close>, whose items are JSON texts. A list key that does not exist is
  the empty list, as in Redis.
\<close>

record Redis =
  strings :: "string \<rightharpoonup> int"
  query_queue :: "string list"

definition requests_remaining_key :: "string \<Rightarrow> string" where
  "requests_remaining_key t = ''task_synthetics_info:'' @ t @ '':requests_remaining''"

definition update_redis_remaining_requests :: "Redis \<Rightarrow> string \<Rightarrow> int \<Rightarrow> Redis" where
  "update_redis_remaining_requests redis_db t remaining =
     redis_db\<lparr>strings := (strings redis_db)(requests_remaining_key t \<mapsto> remaining)\<rparr>"

definition get_redis_remaining_requests :: "Redis \<Rightarrow> string \<Rightarrow> int" where
  "get_redis_remaining_requests redis_db t =
     (case strings redis_db (requests_remaining_key t) of
        Some v \<Rightarrow> v
      | None \<Rightarrow> 0)"

text \<open>
  \<^verbatim>\<open>json.loads\<close> belongs to the standard library and is a parameter \<open>loads\<close>; a decoded
  value is a \<open>json\<close>, an object being the list of its items. \<^verbatim>\<open>.get\<close> exists on a
  dict only: on any other value Python raises \<^verbatim>\<open>AttributeError\<close>.
\<close>

datatype json =
    JNull
  | JBool bool
  | JInt int
  | JFloat real
  | JString string
  | JArray "json list"
  | JObject "(string \<times> json) list"

fun dict_get :: "json \<Rightarrow> string \<Rightarrow> error + json option" where
  "dict_get (JObject items) k = Inr (map_of items k)"
| "dict_get v k = Inl AttributeError"

text \<open>
  The list comprehension of \<^verbatim>\<open>_clear_old_synthetic_queries\<close>; \<open>SYNTHETIC\<close> is the
  constant \<^verbatim>\<open>gcst.SYNTHETIC\<close>. The first item that fails to decode, or decodes to
  something without \<^verbatim>\<open>.get\<close>, raises.
\<close>

fun non_synthetic_items :: "(string \<Rightarrow> error + json) \<Rightarrow> string \<Rightarrow> string list
    \<Rightarrow> error + string list" where
  "non_synthetic_items loads SYNTHETIC [] = Inr []"
| "non_synthetic_items loads SYNTHETIC (item # all_items) =
     (case loads item of
        Inl e \<Rightarrow> Inl e
      | Inr v \<Rightarrow>
          (case dict_get v ''query_type'' of
             Inl e \<Rightarrow> Inl e
           | Inr query_type \<Rightarrow>
               (case non_synthetic_items loads SYNTHETIC all_items of
                  Inl e \<Rightarrow> Inl e
                | Inr kept \<Rightarrow>
                    Inr (if query_type \<noteq> Some (JString SYNTHETIC) then item # kept else kept))))"

definition clear_old_synthetic_queries :: "(string \<Rightarrow> error + json) \<Rightarrow> string \<Rightarrow> Redis
    \<Rightarrow> error + Redis" where
  "clear_old_synthetic_queries loads SYNTHETIC redis_db =
     (case non_synthetic_items loads SYNTHETIC (query_queue redis_db) of
        Inl e \<Rightarrow> Inl e
      | Inr kept \<Rightarrow>
          let deleted = redis_db\<lparr>query_queue := []\<rparr>
          in Inr (if kept \<noteq> [] then deleted\<lparr>query_queue := query_queue deleted @ kept\<rparr>
                  else deleted))"

section \<open>Scheduler: the loop\<close>

text \<open>
  The inner loop \<^verbatim>\<open>while time_to_sleep > 0\<close>: the arguments of the calls of
  \<^verbatim>\<open>asyncio.sleep\<close>, in order. For a time that is not positive the list is empty, as
  the code then skips the wait altogether.
\<close>

function sleep_chunks :: "real \<Rightarrow> real list" where
  "sleep_chunks time_to_sleep =
     (if 0 < time_to_sleep then min 2 time_to_sleep # sleep_chunks (time_to_sleep - 2) else [])"
  by pat_completeness auto
termination
proof (relation "measure (\<lambda>time_to_sleep. nat \<lceil>time_to_sleep\<rceil>)")
  show "wf (measure (\<lambda>time_to_sleep::real. nat \<lceil>time_to_sleep\<rceil>))" by simp
next
  fix time_to_sleep :: real
  assume "0 < time_to_sleep"
  then have "0 < \<lceil>time_to_sleep\<rceil>" by simp
  moreover have "\<lceil>time_to_sleep - 2\<rceil> = \<lceil>time_to_sleep\<rceil> - 2" by simp
  ultimately show "(time_to_sleep - 2, time_to_sleep) \<in> measure (\<lambda>time_to_sleep. nat \<lceil>time_to_sleep\<rceil>)"
    by simp
qed

text \<open>
  The state of the cycle: the local heap, the shared store, the counter \<^verbatim>\<open>i\<close> and the
  durations slept so far. What one iteration takes from outside: the four readings of
  the clock (lines 146, 149, 182 and 194 of the module) and \<open>others\<close>, the writes of
  other parties to the shared store that land before the iteration reads the counter;
  within the rest of the iteration the store is changed by this instance only.
\<close>

record cycle_state =
  task_schedules :: "TaskScheduleInfo list"
  redis_db :: Redis
  iterations :: nat
  sleeps :: "real list"

record iteration_env =
  others :: "Redis \<Rightarrow> Redis"
  time_pop :: real
  time_check :: real
  time_issue :: real
  time_end :: real

datatype flow = Continue | Break

text \<open>The report of every hundredth iteration pops every entry and pushes it back.\<close>

definition report_status :: "TaskScheduleInfo list \<Rightarrow> TaskScheduleInfo list" where
  "report_status heap =
     (let schedules_left = fst (pop_n (length heap) heap);
          emptied = snd (pop_n (length heap) heap)
      in foldl heappush emptied schedules_left)"

text \<open>
  Lines 146 to 150: the time to sleep, from the first reading of the clock, and the test
  that ends the cycle before a wait, which reads the clock again.
\<close>

definition time_to_sleep_of :: "iteration_env \<Rightarrow> TaskScheduleInfo \<Rightarrow> real" where
  "time_to_sleep_of env schedule = next_schedule_time schedule - time_pop env"

definition stops_before_wait :: "real \<Rightarrow> real \<Rightarrow> iteration_env \<Rightarrow> TaskScheduleInfo \<Rightarrow> bool" where
  "stops_before_wait start_time scoring_period_time env schedule \<longleftrightarrow>
     0 < time_to_sleep_of env schedule
     \<and> scoring_period_time < time_check env - start_time + time_to_sleep_of env schedule"

text \<open>
  The body of \<^verbatim>\<open>while task_schedules\<close> after the pop: \<open>schedule\<close> is the popped entry and
  the state holds the heap without it and the incremented counter. \<open>add_q\<close> is
  \<^verbatim>\<open>putils.add_synthetic_query_to_queue\<close>, which is outside the two modules.
\<close>

definition iteration :: "(Redis \<Rightarrow> string \<Rightarrow> int \<Rightarrow> Redis) \<Rightarrow> real \<Rightarrow> real \<Rightarrow> iteration_env
    \<Rightarrow> TaskScheduleInfo \<Rightarrow> cycle_state \<Rightarrow> flow \<times> cycle_state" where
  "iteration add_q start_time scoring_period_time env schedule st =
     (if stops_before_wait start_time scoring_period_time env schedule then (Break, st)
      else
        let st1 = st\<lparr>sleeps := sleeps st @ sleep_chunks (time_to_sleep_of env schedule),
                     redis_db := others env (redis_db st)\<rparr>;
            latest_remaining_requests = get_redis_remaining_requests (redis_db st1) (task schedule)
        in if latest_remaining_requests \<le> 0 then (Continue, st1)
           else
             let requests_to_skip = remaining_requests schedule - latest_remaining_requests in
             if 0 < requests_to_skip then
               (Continue,
                st1\<lparr>task_schedules :=
                      heappush (task_schedules st1)
                        (schedule\<lparr>next_schedule_time :=
                                     next_schedule_time schedule
                                       + interval schedule * real_of_int requests_to_skip,
                                   remaining_requests := latest_remaining_requests\<rparr>)\<rparr>)
             else
               let queued = add_q (redis_db st1) (task schedule) 100;
                   remaining = latest_remaining_requests - 1;
                   written = update_redis_remaining_requests queued (task schedule) remaining;
                   schedule' = schedule\<lparr>next_schedule_time := time_issue env + interval schedule,
                                        remaining_requests := remaining\<rparr>;
                   st2 = st1\<lparr>redis_db := written,
                              task_schedules :=
                                (if 0 < remaining_requests schedule'
                                 then heappush (task_schedules st1) schedule'
                                 else task_schedules st1)\<rparr>
               in if scoring_period_time < time_end env - start_time then (Break, st2)
                  else if iterations st2 mod 100 = 0
                  then (Continue, st2\<lparr>task_schedules := report_status (task_schedules st2)\<rparr>)
                  else (Continue, st2))"

text \<open>
  The loop \<^verbatim>\<open>while task_schedules\<close>. Nothing in the code bounds the number of iterations
  (another party may raise a counter again and again), so the loop runs on the list of
  the environments of its iterations: \<open>None\<close> when the list ends before the loop does,
  otherwise the state at the exit of the loop, by the empty heap or by \<^verbatim>\<open>break\<close>.
  \<open>schedule_states\<close> lists the state after every iteration the loop makes on these
  environments.
\<close>

fun schedule_loop :: "(Redis \<Rightarrow> string \<Rightarrow> int \<Rightarrow> Redis) \<Rightarrow> real \<Rightarrow> real \<Rightarrow> iteration_env list
    \<Rightarrow> cycle_state \<Rightarrow> cycle_state option" where
  "schedule_loop add_q start_time scoring_period_time [] st =
     (if task_schedules st = [] then Some st else None)"
| "schedule_loop add_q start_time scoring_period_time (env # envs) st =
     (case heappop (task_schedules st) of
        None \<Rightarrow> Some st
      | Some (schedule, heap) \<Rightarrow>
          (case iteration add_q start_time scoring_period_time env schedule
                  (st\<lparr>task_schedules := heap, iterations := iterations st + 1\<rparr>) of
             (Break, st') \<Rightarrow> Some st'
           | (Continue, st') \<Rightarrow> schedule_loop add_q start_time scoring_period_time envs st'))"


text \<open>
  \<^verbatim>\<open>schedule_synthetics_until_done\<close>. What the function takes from outside its module
  is collected in one record: the constant of \<^verbatim>\<open>core.constants\<close>, the registry of task
  configurations, \<^verbatim>\<open>json.loads\<close>, the constant \<^verbatim>\<open>gcst.SYNTHETIC\<close>, the enqueue utility,
  the contenders \<^verbatim>\<open>putils.load_contenders\<close> returns, the clock readings and the random
  numbers. \<open>cycle_start\<close> is the part before the loop and answers the state the loop
  starts in.
\<close>

record outside =
  SCORING_PERIOD_TIME :: real
  task_registry :: task_configs
  json_loads :: "string \<Rightarrow> error + json"
  SYNTHETIC :: string
  add_synthetic_query_to_queue :: "Redis \<Rightarrow> string \<Rightarrow> int \<Rightarrow> Redis"
  load_contenders :: "Contender list"
  start_time :: real
  clock :: "string \<Rightarrow> real"
  rnd :: "string \<Rightarrow> real"

definition cycle_start :: "outside \<Rightarrow> Redis \<Rightarrow> Config \<Rightarrow> error + cycle_state" where
  "cycle_start out redis0 config =
     (let contenders = load_contenders out;
          task_groups = group_contenders_by_task (task_registry out) contenders
      in case initialize_task_schedules (SCORING_PERIOD_TIME out) (task_registry out)
                (clock out) (rnd out) task_groups config of
           Inl e \<Rightarrow> Inl e
         | Inr schedules \<Rightarrow>
             (case clear_old_synthetic_queries (json_loads out) (SYNTHETIC out) redis0 of
                Inl e \<Rightarrow> Inl e
              | Inr cleared \<Rightarrow>
                  Inr \<lparr>task_schedules = schedules,
                       redis_db =
                         foldl (\<lambda>redis schedule.
                                  update_redis_remaining_requests redis (task schedule)
                                    (total_requests schedule))
                           cleared schedules,
                       iterations = 0,
                       sleeps = []\<rparr>))"


definition schedule_synthetics_until_done :: "outside \<Rightarrow> iteration_env list \<Rightarrow> Redis \<Rightarrow> Config
    \<Rightarrow> error + cycle_state option" where
  "schedule_synthetics_until_done out envs redis0 config =
     (case cycle_start out redis0 config of
        Inl e \<Rightarrow> Inl e
      | Inr st0 \<Rightarrow>
          (case schedule_loop (add_synthetic_query_to_queue out) (start_time out)
                   (float_mul (SCORING_PERIOD_TIME out) (scoring_period_time_multiplier config))
                   envs st0 of
             None \<Rightarrow> Inr None
           | Some st \<Rightarrow>
               Inr (Some (st\<lparr>task_schedules :=
                               snd (pop_n (length (task_schedules st)) (task_schedules st)),
                             sleeps := sleeps st @ [10]\<rparr>))))"

section \<open>Node registry\<close>

text \<open>
  The two tables. The columns are named by the constants of \<^verbatim>\<open>database_constants\<close>
  the queries use. A row of the history table has the fifteen columns
  \<^verbatim>\<open>migrate_nodes_to_history\<close> writes; a row of the live table has these and the three
  columns the other queries name. The schema is outside the module: a column an
  \<^verbatim>\<open>INSERT\<close> does not name takes the default of the table, a parameter
  (\<open>table_defaults\<close>), and no constraint of the schema is modelled. A table is the
  list of its rows, in the order a \<^verbatim>\<open>SELECT\<close> returns them.
\<close>

record history_row =
  HOTKEY :: string
  COLDKEY :: string
  NODE_ID :: int
  INCENTIVE :: real
  NETUID :: int
  STAKE :: real
  TRUST :: real
  VTRUST :: real
  LAST_UPDATED :: real
  IP :: string
  IP_TYPE :: int
  PORT :: int
  PROTOCOL :: int
  NETWORK :: string
  CREATED_AT :: real

record nodes_row = history_row +
  SYMMETRIC_KEY :: "string option"
  SYMMETRIC_KEY_UUID :: "string option"
  OUR_VALIDATOR :: bool

record table_defaults =
  default_CREATED_AT :: real
  default_SYMMETRIC_KEY_UUID :: "string option"
  default_OUR_VALIDATOR :: bool

record database =
  NODES_TABLE :: "nodes_row list"
  NODES_HISTORY_TABLE :: "history_row list"

text \<open>
  \<^verbatim>\<open>fiber.networking.models.NodeWithFernet\<close>, imported as \<^verbatim>\<open>Node\<close>: the fields the module
  reads and writes. The type \<open>'f\<close> is the type of the \<^verbatim>\<open>Fernet\<close> handle.
\<close>

record 'f Node =
  hotkey :: string
  coldkey :: string
  node_id :: int
  incentive :: real
  netuid :: int
  stake :: real
  trust :: real
  vtrust :: real
  last_updated :: real
  ip :: string
  ip_type :: int
  port :: int
  protocol :: int
  fernet :: "'f option"
  symmetric_key_uuid :: "string option"

definition inserted_row :: "table_defaults \<Rightarrow> string \<Rightarrow> 'f Node \<Rightarrow> nodes_row" where
  "inserted_row dflt network node =
     \<lparr>HOTKEY = hotkey node,
      COLDKEY = coldkey node,
      NODE_ID = node_id node,
      INCENTIVE = incentive node,
      NETUID = netuid node,
      STAKE = stake node,
      TRUST = trust node,
      VTRUST = vtrust node,
      LAST_UPDATED = last_updated node,
      IP = ip node,
      IP_TYPE = ip_type node,
      PORT = port node,
      PROTOCOL = protocol node,
      NETWORK = network,
      CREATED_AT = default_CREATED_AT dflt,
      SYMMETRIC_KEY = None,
      SYMMETRIC_KEY_UUID = default_SYMMETRIC_KEY_UUID dflt,
      OUR_VALIDATOR = default_OUR_VALIDATOR dflt\<rparr>"

definition insert_nodes :: "table_defaults \<Rightarrow> database \<Rightarrow> 'f Node list \<Rightarrow> string \<Rightarrow> database" where
  "insert_nodes dflt connection nodes network =
     connection\<lparr>NODES_TABLE := NODES_TABLE connection @ map (inserted_row dflt network) nodes\<rparr>"

definition history_of :: "nodes_row \<Rightarrow> history_row" where
  "history_of r =
     \<lparr>HOTKEY = HOTKEY r,
      COLDKEY = COLDKEY r,
      NODE_ID = NODE_ID r,
      INCENTIVE = INCENTIVE r,
      NETUID = NETUID r,
      STAKE = STAKE r,
      TRUST = TRUST r,
      VTRUST = VTRUST r,
      LAST_UPDATED = LAST_UPDATED r,
      IP = IP r,
      IP_TYPE = IP_TYPE r,
      PORT = PORT r,
      PROTOCOL = PROTOCOL r,
      NETWORK = NETWORK r,
      CREATED_AT = CREATED_AT r\<rparr>"

definition migrate_nodes_to_history :: "database \<Rightarrow> database" where
  "migrate_nodes_to_history connection =
     (let copied = connection\<lparr>NODES_HISTORY_TABLE :=
                     NODES_HISTORY_TABLE connection @ map history_of (NODES_TABLE connection)\<rparr>
      in copied\<lparr>NODES_TABLE := []\<rparr>)"

text \<open>
  \<^verbatim>\<open>PSQLDB.fetchone\<close> answers the first row of the result, or \<^verbatim>\<open>None\<close>. \<open>Fernet\<close> is the
  constructor of \<^verbatim>\<open>cryptography.fernet\<close>, a parameter: \<open>None\<close> when it raises on the
  stored key. \<^verbatim>\<open>get_node\<close> raises \<^verbatim>\<open>ValueError\<close> when no row matches, answers \<^verbatim>\<open>None\<close>
  when the constructor raises, and the node otherwise.
\<close>

definition fetchone_node :: "database \<Rightarrow> int \<Rightarrow> int \<Rightarrow> nodes_row option" where
  "fetchone_node psql_db nid nuid =
     find (\<lambda>r. NODE_ID r = nid \<and> NETUID r = nuid) (NODES_TABLE psql_db)"

definition get_node :: "(string option \<Rightarrow> 'f option) \<Rightarrow> database \<Rightarrow> int \<Rightarrow> int
    \<Rightarrow> error + 'f Node option" where
  "get_node Fernet psql_db nid nuid =
     (case fetchone_node psql_db nid nuid of
        None \<Rightarrow> Inl (ValueError_no_node_found nid nuid)
      | Some node \<Rightarrow>
          (case Fernet (SYMMETRIC_KEY node) of
             None \<Rightarrow> Inr None
           | Some handle \<Rightarrow>
               Inr (Some \<lparr>hotkey = HOTKEY node,
                          coldkey = COLDKEY node,
                          node_id = NODE_ID node,
                          incentive = INCENTIVE node,
                          netuid = NETUID node,
                          stake = STAKE node,
                          trust = TRUST node,
                          vtrust = VTRUST node,
                          last_updated = LAST_UPDATED node,
                          ip = IP node,
                          ip_type = IP_TYPE node,
                          port = PORT node,
                          protocol = PROTOCOL node,
                          fernet = Some handle,
                          symmetric_key_uuid = SYMMETRIC_KEY_UUID node\<rparr>)))"

section \<open>The words of the specification, and sample inputs\<close>

text \<open>
  The specification speaks of the items of the work queue "whose \<^verbatim>\<open>query_type\<close>
  discriminator marks them synthetic". \<open>marked_synthetic\<close> follows these words: the item
  decodes to an object whose field \<^verbatim>\<open>query_type\<close> is the synthetic constant. It is compared
  below with what \<open>clear_old_synthetic_queries\<close> drops.
\<close>

definition marked_synthetic :: "(string \<Rightarrow> error + json) \<Rightarrow> string \<Rightarrow> string \<Rightarrow> bool" where
  "marked_synthetic loads SYNTH item =
     (case loads item of
        Inr (JObject items) \<Rightarrow> map_of items ''query_type'' = Some (JString SYNTH)
      | _ \<Rightarrow> False)"

text \<open>
  Concrete inputs on which the theorems below are run: an enqueue utility that appends the
  task to the queue while the queue is shorter than the cap, a decoder that knows four
  items, one schedule entry with its store and clock readings, a cycle of two tasks, a
  registry of three tasks, and a node table of two live rows and one archived row.
\<close>

definition sample_add_q :: "Redis \<Rightarrow> string \<Rightarrow> int \<Rightarrow> Redis" where
  "sample_add_q redis t max_len =
     (if int (length (query_queue redis)) < max_len
      then redis\<lparr>query_queue := query_queue redis @ [t]\<rparr> else redis)"

definition sample_loads :: "string \<Rightarrow> error + json" where
  "sample_loads s =
     (if s = ''s1'' \<or> s = ''s2'' then Inr (JObject [(''query_type'', JString ''synthetic'')])
      else if s = ''o1'' then Inr (JObject [(''query_type'', JString ''organic'')])
      else if s = ''o2'' then Inr (JObject [(''job_id'', JInt 7)])
      else Inl JSONDecodeError)"

definition sample_schedule :: TaskScheduleInfo where
  "sample_schedule =
     \<lparr>task = ''t'', total_requests = 5, interval = 10, next_schedule_time = 100,
      remaining_requests = 5\<rparr>"

definition sample_redis :: "int \<Rightarrow> Redis" where
  "sample_redis n = \<lparr>strings = [requests_remaining_key ''t'' \<mapsto> n], query_queue = []\<rparr>"

definition sample_state :: "int \<Rightarrow> cycle_state" where
  "sample_state n = \<lparr>task_schedules = [], redis_db = sample_redis n, iterations = 1, sleeps = []\<rparr>"

definition sample_env :: iteration_env where
  "sample_env =
     \<lparr>others = (\<lambda>redis. redis), time_pop = 101, time_check = 101, time_issue = 102,
      time_end = 103\<rparr>"

definition sample_env_deleted :: iteration_env where
  "sample_env_deleted =
     \<lparr>others = (\<lambda>redis. redis\<lparr>strings := (strings redis)(requests_remaining_key ''t'' := None)\<rparr>),
      time_pop = 101, time_check = 101, time_issue = 102, time_end = 103\<rparr>"

definition sample_env_wait :: iteration_env where
  "sample_env_wait =
     \<lparr>others = (\<lambda>redis. redis), time_pop = 95, time_check = 96, time_issue = 101,
      time_end = 102\<rparr>"

definition sample_env_late :: iteration_env where
  "sample_env_late =
     \<lparr>others = (\<lambda>redis. redis), time_pop = 3599, time_check = 3599, time_issue = 3600,
      time_end = 3601\<rparr>"

definition sample_env_past :: iteration_env where
  "sample_env_past =
     \<lparr>others = (\<lambda>redis. redis), time_pop = 4000, time_check = 4000, time_issue = 4000,
      time_end = 4000\<rparr>"








definition sample_registry :: task_configs where
  "sample_registry =
     [''t'' \<mapsto> \<lparr>enabled = True, volume_to_requests_conversion = 7\<rparr>,
      ''u'' \<mapsto> \<lparr>enabled = True, volume_to_requests_conversion = 10\<rparr>,
      ''off'' \<mapsto> \<lparr>enabled = False, volume_to_requests_conversion = 10\<rparr>]"

definition sample_contenders :: "string \<Rightarrow> Contender list" where
  "sample_contenders t =
     [\<lparr>contender_task = t, capacity_to_score = 60\<rparr>, \<lparr>contender_task = t, capacity_to_score = 40\<rparr>]"


definition sample_entry :: TaskScheduleInfo where
  "sample_entry =
     \<lparr>task = ''u'', total_requests = 10, interval = 1439360676361309 / 4398046511104,
      next_schedule_time = 2558863424642327 / 2199023255552, remaining_requests = 10\<rparr>"

definition sample_history_row :: "int \<Rightarrow> history_row" where
  "sample_history_row nid =
     \<lparr>HOTKEY = ''hotkey'', COLDKEY = ''coldkey'', NODE_ID = nid, INCENTIVE = 1 / 4, NETUID = 19,
      STAKE = 1, TRUST = 1 / 2, VTRUST = 3 / 4, LAST_UPDATED = 7, IP = ''10.0.0.1'', IP_TYPE = 4,
      PORT = 8080, PROTOCOL = 6, NETWORK = ''test'', CREATED_AT = 11\<rparr>"

definition sample_live_row :: "int \<Rightarrow> string option \<Rightarrow> nodes_row" where
  "sample_live_row nid key =
     \<lparr>HOTKEY = ''hotkey'', COLDKEY = ''coldkey'', NODE_ID = nid, INCENTIVE = 1 / 4, NETUID = 19,
      STAKE = 1, TRUST = 1 / 2, VTRUST = 3 / 4, LAST_UPDATED = 7, IP = ''10.0.0.1'', IP_TYPE = 4,
      PORT = 8080, PROTOCOL = 6, NETWORK = ''test'', CREATED_AT = 11,
      SYMMETRIC_KEY = key, SYMMETRIC_KEY_UUID = Some ''uuid'', OUR_VALIDATOR = True\<rparr>"

definition sample_table :: database where
  "sample_table =
     \<lparr>NODES_TABLE = [sample_live_row 1 (Some ''good''), sample_live_row 2 None],
      NODES_HISTORY_TABLE = [sample_history_row 9]\<rparr>"

definition sample_fresh :: "string Node" where
  "sample_fresh =
     \<lparr>hotkey = ''fresh'', coldkey = ''cold'', node_id = 3, incentive = 1 / 8, netuid = 19,
      stake = 2, trust = 3 / 8, vtrust = 5 / 8, last_updated = 12, ip = ''10.0.0.3'', ip_type = 4,
      port = 8081, protocol = 6, fernet = Some ''handle'', symmetric_key_uuid = Some ''uuid''\<rparr>"

definition sample_Fernet :: "string option \<Rightarrow> string option" where
  "sample_Fernet key = (if key = Some ''good'' then Some ''handle'' else None)"

definition sample_defaults :: table_defaults where
  "sample_defaults =
     \<lparr>default_CREATED_AT = 5, default_SYMMETRIC_KEY_UUID = None, default_OUR_VALIDATOR = False\<rparr>"

section \<open>Lemmas\<close>

text \<open>
  The equations of the three loops defined with a termination proof are unfolded by
  hand, with \<open>subst\<close>; left to the simplifier they would be unfolded without end.
\<close>

declare siftdown_loop.simps [simp del] siftup_loop.simps [simp del] sleep_chunks.simps [simp del]

subsection \<open>Rounding to a double\<close>

lemma round_half_even_int [simp]: "round_half_even (of_int n) = n"
  by (simp add: round_half_even_def)

lemma round_half_even_0 [simp]: "round_half_even 0 = 0"
  by (simp add: round_half_even_def)

lemma round_half_even_numeral [simp]: "round_half_even (numeral w) = numeral w"
  using round_half_even_int [of "numeral w"] by simp

lemma round_half_even_neg_numeral [simp]: "round_half_even (- numeral w) = - numeral w"
  using round_half_even_int [of "- numeral w"] by simp

lemma round_half_even_range:
  "\<lfloor>y\<rfloor> \<le> round_half_even y \<and> round_half_even y \<le> \<lfloor>y\<rfloor> + 1"
  by (simp add: round_half_even_def)

lemma round_half_even_mono:
  assumes "a \<le> b"
  shows "round_half_even a \<le> round_half_even b"
proof (cases "\<lfloor>a\<rfloor> = \<lfloor>b\<rfloor>")
  case True
  with assms show ?thesis by (auto simp: round_half_even_def)
next
  case False
  with assms have "\<lfloor>a\<rfloor> < \<lfloor>b\<rfloor>" by (simp add: floor_mono order.strict_iff_order)
  with round_half_even_range [of a] round_half_even_range [of b] show ?thesis by linarith
qed

lemma round_half_even_minus: "round_half_even (- y) = - round_half_even y"
proof (cases "y = of_int \<lfloor>y\<rfloor>")
  case True
  have "round_half_even (- of_int \<lfloor>y\<rfloor>) = - round_half_even (of_int \<lfloor>y\<rfloor>)"
    by (simp flip: of_int_minus)
  then show ?thesis by (metis True)
next
  case False
  with of_int_floor_le [of y] have lt: "of_int \<lfloor>y\<rfloor> < y" by linarith
  have "\<lfloor>- y\<rfloor> = - \<lfloor>y\<rfloor> - 1"
    using lt by (intro floor_unique) (auto, linarith)
  then show ?thesis
    using lt by (auto simp: round_half_even_def)
qed

lemma round_to_grid_mono: "x \<le> y \<Longrightarrow> round_to_grid e x \<le> round_to_grid e y"
  by (simp add: round_to_grid_def round_half_even_mono divide_right_mono)

lemma round_to_grid_fix [simp]: "round_to_grid e (of_int m * 2 powi e) = of_int m * 2 powi e"
  by (simp add: round_to_grid_def)

lemma round_to_grid_minus: "round_to_grid e (- x) = - round_to_grid e x"
  by (simp add: round_to_grid_def round_half_even_minus)

lemma two_powi_pos [simp]: "0 < (2::real) powi e"
  by (simp add: zero_less_power_int)

lemma two_powi_mono: "a \<le> b \<Longrightarrow> (2::real) powi a \<le> 2 powi b"
  by (rule power_int_increasing) simp_all

lemma two_powi_strict_mono: "a < b \<Longrightarrow> (2::real) powi a < 2 powi b"
  by (rule power_int_strict_increasing) simp_all

lemma two_powi_less_iff: "(2::real) powi a < 2 powi b \<longleftrightarrow> a < b"
  using two_powi_mono [of b a] two_powi_strict_mono [of a b] by (cases "a < b") auto

lemma two_powi_le_iff: "(2::real) powi a \<le> 2 powi b \<longleftrightarrow> a \<le> b"
  using two_powi_mono [of a b] two_powi_strict_mono [of b a] by (cases "a \<le> b") auto

lemma two_powi_add: "(2::real) powi (a + b) = 2 powi a * 2 powi b"
  by (simp add: power_int_add)

lemma two_powi_Suc: "(2::real) powi (a + 1) = 2 * 2 powi a"
  by (simp add: power_int_add)

lemma two_powi_nat: "0 \<le> b \<Longrightarrow> (2::real) powi b = of_int (2 ^ nat b)"
  by (simp add: power_int_def)

lemma binade_bounds:
  assumes "x \<noteq> 0"
  shows "2 powi binade x \<le> \<bar>x\<bar> \<and> \<bar>x\<bar> < 2 powi (binade x + 1)"
proof (cases "1 \<le> \<bar>x\<bar>")
  case True
  define m where "m = \<lfloor>\<bar>x\<bar>\<rfloor>"
  from True have m: "0 < m" by (simp add: m_def)
  then have b: "1 \<le> bitlen m" using bitlen_eq_zero_iff [of m] bitlen_nonneg [of m] by linarith
  from bitlen_bounds [OF m] have lo: "2 ^ nat (bitlen m - 1) \<le> m" and hi: "m < 2 ^ nat (bitlen m)"
    by simp_all
  have e: "binade x = bitlen m - 1" using True by (simp add: binade_def m_def)
  have "(2::real) powi (bitlen m - 1) = of_int (2 ^ nat (bitlen m - 1))"
    using b by (intro two_powi_nat) simp
  also have "\<dots> \<le> of_int m" using lo by (simp only: of_int_le_iff)
  also have "\<dots> \<le> \<bar>x\<bar>" by (simp add: m_def)
  finally have 1: "2 powi binade x \<le> \<bar>x\<bar>" by (simp add: e)
  have "\<bar>x\<bar> < of_int (m + 1)" by (simp add: m_def)
  also have "\<dots> \<le> of_int (2 ^ nat (bitlen m))" using hi by (simp only: of_int_le_iff)
  also have "\<dots> = 2 powi (bitlen m)" using b by (intro two_powi_nat [symmetric]) simp
  finally have 2: "\<bar>x\<bar> < 2 powi (binade x + 1)" by (simp add: e)
  from 1 2 show ?thesis ..
next
  case False
  from assms have pos: "0 < \<bar>x\<bar>" by simp
  define z where "z = 1 / \<bar>x\<bar>"
  define m where "m = \<lceil>z\<rceil> - 1"
  from False pos have z1: "1 < z" by (simp add: z_def)
  then have "1 < \<lceil>z\<rceil>" by (simp add: less_ceiling_iff)
  then have m: "0 < m" by (simp add: m_def)
  then have b: "1 \<le> bitlen m" using bitlen_eq_zero_iff [of m] bitlen_nonneg [of m] by linarith
  from bitlen_bounds [OF m] have lo: "2 ^ nat (bitlen m - 1) \<le> m" and hi: "m < 2 ^ nat (bitlen m)"
    by simp_all
  have e: "binade x = - bitlen m" using False by (simp add: binade_def m_def z_def)
  have mz: "of_int m < z" "z \<le> of_int (m + 1)"
    unfolding m_def by (simp_all add: less_ceiling_iff [symmetric]) linarith+
  have "z \<le> of_int (m + 1)" by (rule mz(2))
  also have "\<dots> \<le> of_int (2 ^ nat (bitlen m))" using hi by (simp only: of_int_le_iff)
  also have "\<dots> = 2 powi (bitlen m)" using b by (intro two_powi_nat [symmetric]) simp
  finally have "1 / \<bar>x\<bar> \<le> 2 powi (bitlen m)" by (simp add: z_def)
  then have "1 \<le> 2 powi (bitlen m) * \<bar>x\<bar>" using pos by (simp add: field_simps)
  then have "1 / 2 powi (bitlen m) \<le> \<bar>x\<bar>" by (simp add: field_simps)
  then have 1: "2 powi binade x \<le> \<bar>x\<bar>" by (simp add: e power_int_minus field_simps)
  have "(2::real) powi (bitlen m - 1) = of_int (2 ^ nat (bitlen m - 1))"
    using b by (intro two_powi_nat) simp
  also have "\<dots> \<le> of_int m" using lo by (simp only: of_int_le_iff)
  also have "\<dots> < z" by (rule mz(1))
  finally have "2 powi (bitlen m - 1) < 1 / \<bar>x\<bar>" by (simp add: z_def)
  then have "2 powi (bitlen m - 1) * \<bar>x\<bar> < 1" using pos by (simp add: field_simps)
  then have "\<bar>x\<bar> < 1 / 2 powi (bitlen m - 1)" by (simp add: field_simps)
  also have "\<dots> = 2 powi (- (bitlen m - 1))" by (simp only: power_int_minus inverse_eq_divide)
  also have "- (bitlen m - 1) = binade x + 1" by (simp add: e)
  finally have 2: "\<bar>x\<bar> < 2 powi (binade x + 1)" .
  from 1 2 show ?thesis ..
qed

lemma binade_unique:
  assumes "2 powi E \<le> \<bar>x\<bar>" and "\<bar>x\<bar> < 2 powi (E + 1)"
  shows "binade x = E"
proof -
  from assms(1) have "0 < \<bar>x\<bar>" using two_powi_pos [of E] by linarith
  then have "x \<noteq> 0" by simp
  from binade_bounds [OF this] have b: "2 powi binade x \<le> \<bar>x\<bar>" "\<bar>x\<bar> < 2 powi (binade x + 1)"
    by simp_all
  from assms(1) b(2) have "(2::real) powi E < 2 powi (binade x + 1)" by linarith
  then have 1: "E < binade x + 1" by (simp only: two_powi_less_iff)
  from b(1) assms(2) have "(2::real) powi binade x < 2 powi (E + 1)" by linarith
  then have 2: "binade x < E + 1" by (simp only: two_powi_less_iff)
  from 1 2 show ?thesis by simp
qed

lemma double_exponent_eq:
  assumes "2 powi E \<le> \<bar>x\<bar>" and "\<bar>x\<bar> < 2 powi (E + 1)" and "- 1022 \<le> E"
  shows "double_exponent x = E"
  using binade_unique [OF assms(1,2)] assms(3) by (simp add: double_exponent_def)

lemma double_exponent_subnormal:
  assumes "x \<noteq> 0" and "\<bar>x\<bar> < 2 powi (- 1022)"
  shows "double_exponent x = - 1022"
proof -
  from binade_bounds [OF assms(1)] assms(2) have "(2::real) powi binade x < 2 powi (- 1022)"
    by linarith
  then have "binade x < - 1022" by (simp only: two_powi_less_iff)
  then show ?thesis by (simp add: double_exponent_def)
qed

lemma double_exponent_bounds:
  assumes "x \<noteq> 0"
  shows "- 1022 \<le> double_exponent x \<and> \<bar>x\<bar> < 2 powi (double_exponent x + 1)
         \<and> (2 powi double_exponent x \<le> \<bar>x\<bar> \<or> double_exponent x = - 1022)"
proof (cases "\<bar>x\<bar> < 2 powi (- 1022)")
  case True
  with assms have e: "double_exponent x = - 1022" by (rule double_exponent_subnormal)
  have "(2::real) powi (- 1022) \<le> 2 powi (- 1022 + 1)" by (rule two_powi_mono) simp
  with True e show ?thesis by simp
next
  case False
  from binade_bounds [OF assms] have k: "2 powi binade x \<le> \<bar>x\<bar>" "\<bar>x\<bar> < 2 powi (binade x + 1)"
    by simp_all
  from False k(2) have "(2::real) powi (- 1022) < 2 powi (binade x + 1)" by linarith
  then have "- 1022 < binade x + 1" by (simp only: two_powi_less_iff)
  then have "- 1022 \<le> binade x" by simp
  with k have "double_exponent x = binade x" by (intro double_exponent_eq)
  with k \<open>- 1022 \<le> binade x\<close> show ?thesis by simp
qed

lemma double_exponent_minus [simp]: "double_exponent (- x) = double_exponent x"
  by (simp add: double_exponent_def binade_def)

lemma round_double_0 [simp]: "round_double 0 = 0"
  by (simp add: round_double_def)

lemma round_double_minus: "round_double (- x) = - round_double x"
  by (simp add: round_double_def round_to_grid_minus)

lemma round_to_grid_0 [simp]: "round_to_grid e 0 = 0"
  by (simp add: round_to_grid_def)

lemma round_to_grid_power:
  assumes "e \<le> k"
  shows "round_to_grid e (2 powi k) = 2 powi k"
proof -
  have "(2::real) powi k = 2 powi (k - e) * 2 powi e"
    using two_powi_add [of "k - e" e] by simp
  also have "(2::real) powi (k - e) = of_int (2 ^ nat (k - e))"
    using assms by (simp add: power_int_def)
  finally have "(2::real) powi k = of_int (2 ^ nat (k - e)) * 2 powi e" .
  then show ?thesis using round_to_grid_fix [of e "2 ^ nat (k - e)"] by simp
qed

lemma round_double_nonneg:
  assumes "0 \<le> x"
  shows "0 \<le> round_double x"
  using round_to_grid_mono [OF assms, of "double_exponent x - 52"]
  by (simp add: round_double_def)

lemma round_double_mono_pos:
  assumes "0 < x" and "x \<le> y"
  shows "round_double x \<le> round_double y"
proof -
  from assms have y: "0 < y" by simp
  let ?a = "double_exponent x" and ?b = "double_exponent y"
  from assms(1) y have bx: "- 1022 \<le> ?a" "x < 2 powi (?a + 1)" "2 powi ?a \<le> x \<or> ?a = - 1022"
    and by': "- 1022 \<le> ?b" "y < 2 powi (?b + 1)" "2 powi ?b \<le> y \<or> ?b = - 1022"
    using double_exponent_bounds [of x] double_exponent_bounds [of y] by simp_all
  have rx: "round_double x = round_to_grid (?a - 52) x" and ry: "round_double y = round_to_grid (?b - 52) y"
    using assms(1) y by (simp_all add: round_double_def)
  show ?thesis
  proof (cases "?a = ?b")
    case True
    with rx ry assms(2) show ?thesis by (simp add: round_to_grid_mono)
  next
    case False
    have "?a < ?b"
    proof (rule ccontr)
      assume "\<not> ?a < ?b"
      with False have lt: "?b < ?a" by simp
      with by'(1) have "?a \<noteq> - 1022" by simp
      with bx(3) have "2 powi ?a \<le> x" by simp
      moreover from lt have "(2::real) powi (?b + 1) \<le> 2 powi ?a" by (intro two_powi_mono) simp
      ultimately show False using by'(2) assms(2) by linarith
    qed
    with bx(1) have "?b \<noteq> - 1022" by simp
    with by'(3) have low: "2 powi ?b \<le> y" by simp
    have "round_to_grid (?a - 52) x \<le> round_to_grid (?a - 52) (2 powi (?a + 1))"
      using bx(2) by (intro round_to_grid_mono) simp
    also have "\<dots> = 2 powi (?a + 1)" by (rule round_to_grid_power) simp
    also have "\<dots> \<le> 2 powi ?b" using \<open>?a < ?b\<close> by (intro two_powi_mono) simp
    also have "\<dots> = round_to_grid (?b - 52) (2 powi ?b)" by (rule round_to_grid_power [symmetric]) simp
    also have "\<dots> \<le> round_to_grid (?b - 52) y" using low by (rule round_to_grid_mono)
    finally show ?thesis using rx ry by simp
  qed
qed

lemma round_double_mono:
  assumes "x \<le> y"
  shows "round_double x \<le> round_double y"
proof -
  consider "0 < x" | "x \<le> 0" "0 \<le> y" | "y < 0" using assms by linarith
  then show ?thesis
  proof cases
    case 1
    then show ?thesis using assms by (rule round_double_mono_pos)
  next
    case 2
    from 2(1) have "0 \<le> - x" by simp
    then have "0 \<le> round_double (- x)" by (rule round_double_nonneg)
    then have "round_double x \<le> 0" by (simp add: round_double_minus)
    moreover from 2(2) have "0 \<le> round_double y" by (rule round_double_nonneg)
    ultimately show ?thesis by simp
  next
    case 3
    then have "0 < - y" "- y \<le> - x" using assms by simp_all
    then have "round_double (- y) \<le> round_double (- x)" by (rule round_double_mono_pos)
    then show ?thesis by (simp add: round_double_minus)
  qed
qed

lemma round_half_even_near:
  assumes "\<bar>y - of_int n\<bar> < 1 / 2"
  shows "round_half_even y = n"
proof -
  consider "of_int n \<le> y" | "y < of_int n" by linarith
  then show ?thesis
  proof cases
    case 1
    with assms have "\<lfloor>y\<rfloor> = n" by (intro floor_unique) (simp_all add: abs_if split: if_splits)
    with assms 1 show ?thesis by (simp add: round_half_even_def abs_if split: if_splits)
  next
    case 2
    with assms have "\<lfloor>y\<rfloor> = n - 1" by (intro floor_unique) (simp_all add: abs_if split: if_splits)
    with assms 2 show ?thesis by (simp add: round_half_even_def abs_if split: if_splits)
  qed
qed

lemma round_double_eval:
  assumes "2 powi E \<le> \<bar>x\<bar>" and "\<bar>x\<bar> < 2 powi (E + 1)" and "- 1022 \<le> E"
  shows "round_double x = round_to_grid (E - 52) x"
proof -
  from assms(1) have "0 < \<bar>x\<bar>" using two_powi_pos [of E] by linarith
  then have "x \<noteq> 0" by simp
  with double_exponent_eq [OF assms] show ?thesis by (simp add: round_double_def)
qed

lemma round_to_grid_near:
  assumes "\<bar>x - of_int n * 2 powi e\<bar> < 2 powi e / 2"
  shows "round_to_grid e x = of_int n * 2 powi e"
proof -
  have "x / 2 powi e - of_int n = (x - of_int n * 2 powi e) / 2 powi e"
    by (simp add: field_simps)
  then have "\<bar>x / 2 powi e - of_int n\<bar> = \<bar>x - of_int n * 2 powi e\<bar> / 2 powi e"
    by (simp add: abs_divide)
  also have "\<dots> < 1 / 2" using assms by (simp add: field_simps)
  finally have "round_half_even (x / 2 powi e) = n" by (rule round_half_even_near)
  then show ?thesis by (simp add: round_to_grid_def)
qed

lemma round_double_on_grid:
  assumes "\<bar>m\<bar> \<le> 2 ^ 53" and "- 1074 \<le> e"
  shows "round_double (of_int m * 2 powi e) = of_int m * 2 powi e"
proof (cases "m = 0")
  case True
  then show ?thesis by simp
next
  case False
  define x where "x = real_of_int m * 2 powi e"
  from False have x0: "x \<noteq> 0" by (simp add: x_def)
  define E where "E = double_exponent x"
  from x0 have b: "- 1022 \<le> E" "\<bar>x\<bar> < 2 powi (E + 1)" "2 powi E \<le> \<bar>x\<bar> \<or> E = - 1022"
    using double_exponent_bounds [of x] by (simp_all add: E_def)
  have r: "round_double x = round_to_grid (E - 52) x"
    using x0 by (simp add: round_double_def E_def)
  have ax: "\<bar>x\<bar> = of_int \<bar>m\<bar> * 2 powi e" by (simp add: x_def abs_mult)
  show ?thesis
  proof (cases "E - 52 \<le> e")
    case True
    have "(2::real) powi e = 2 powi (e - (E - 52)) * 2 powi (E - 52)"
      using two_powi_add [of "e - (E - 52)" "E - 52"] by simp
    also have "(2::real) powi (e - (E - 52)) = of_int (2 ^ nat (e - (E - 52)))"
      using True by (simp add: power_int_def)
    finally have "x = of_int (m * 2 ^ nat (e - (E - 52))) * 2 powi (E - 52)"
      by (simp add: x_def)
    then have "round_to_grid (E - 52) x = x"
      using round_to_grid_fix [of "E - 52" "m * 2 ^ nat (e - (E - 52))"] by simp
    with r show ?thesis by (simp add: x_def)
  next
    case False
    then have lt: "e + 53 \<le> E" by simp
    with assms(2) have "E \<noteq> - 1022" by simp
    with b(3) have low: "2 powi E \<le> \<bar>x\<bar>" by simp
    from assms(1) have "real_of_int \<bar>m\<bar> \<le> real_of_int (2 ^ 53)" by (simp only: of_int_le_iff)
    then have "real_of_int \<bar>m\<bar> \<le> 2 powi 53" by simp
    then have "\<bar>x\<bar> \<le> 2 powi 53 * 2 powi e" by (simp add: ax)
    also have "\<dots> = 2 powi (e + 53)" using two_powi_add [of 53 e] by (simp add: add.commute)
    finally have up: "\<bar>x\<bar> \<le> 2 powi (e + 53)" .
    also have "\<dots> \<le> 2 powi E" using lt by (rule two_powi_mono)
    finally have eq: "\<bar>x\<bar> = 2 powi E" using low by simp
    have g: "round_to_grid (E - 52) (2 powi E) = 2 powi E" by (rule round_to_grid_power) simp
    have "round_to_grid (E - 52) x = x"
    proof (cases "0 \<le> x")
      case True
      with eq g show ?thesis by simp
    next
      case False
      with eq have "x = - (2 powi E)" by simp
      with g show ?thesis by (simp add: round_to_grid_minus)
    qed
    with r show ?thesis by (simp add: x_def)
  qed
qed

lemma round_double_of_int:
  assumes "\<bar>m\<bar> \<le> 2 ^ 53"
  shows "round_double (of_int m) = of_int m"
  using round_double_on_grid [OF assms, of 0] by simp

lemma round_double_mantissa:
  assumes "x \<noteq> 0"
  shows "\<bar>round_half_even (x / 2 powi (double_exponent x - 52))\<bar> \<le> 2 ^ 53"
proof -
  let ?e = "double_exponent x - 52"
  from assms have "\<bar>x\<bar> < 2 powi (double_exponent x + 1)" using double_exponent_bounds [of x] by simp
  also have "double_exponent x + 1 = 53 + ?e" by simp
  also have "(2::real) powi (53 + ?e) = 2 powi 53 * 2 powi ?e" by (rule two_powi_add)
  finally have "\<bar>x\<bar> / 2 powi ?e < 2 powi 53" by (simp add: field_simps)
  then have "\<bar>x / 2 powi ?e\<bar> < of_int (2 ^ 53)" by (simp add: abs_divide)
  then have "x / 2 powi ?e \<le> of_int (2 ^ 53)" "of_int (- (2 ^ 53)) \<le> x / 2 powi ?e"
    by (simp_all add: abs_if split: if_splits)
  then have "round_half_even (x / 2 powi ?e) \<le> round_half_even (of_int (2 ^ 53))"
    "round_half_even (of_int (- (2 ^ 53))) \<le> round_half_even (x / 2 powi ?e)"
    by (simp_all only: round_half_even_mono)
  then show ?thesis by (simp add: abs_le_iff)
qed

lemma round_double_idem [simp]: "round_double (round_double x) = round_double x"
proof (cases "x = 0")
  case True
  then show ?thesis by simp
next
  case False
  have "- 1022 \<le> double_exponent x" by (simp add: double_exponent_def)
  then have "- 1074 \<le> double_exponent x - 52" by simp
  with round_double_mantissa [OF False] False show ?thesis
    by (simp add: round_double_def [of x] round_to_grid_def round_double_on_grid)
qed

lemma round_double_numeral [simp]:
  "(numeral w :: int) \<le> 9007199254740992 \<Longrightarrow> round_double (numeral w) = numeral w"
  using round_double_of_int [of "numeral w"] by simp

lemma round_double_neg_numeral [simp]:
  "(numeral w :: int) \<le> 9007199254740992 \<Longrightarrow> round_double (- numeral w) = - numeral w"
  using round_double_of_int [of "- numeral w"] by simp

lemma round_double_1 [simp]: "round_double 1 = 1"
  using round_double_of_int [of 1] by simp

lemma round_half_even_error: "\<bar>of_int (round_half_even y) - y\<bar> \<le> 1 / 2"
  by (simp add: round_half_even_def abs_if) linarith

lemma round_to_grid_error: "\<bar>round_to_grid e x - x\<bar> \<le> 2 powi e / 2"
proof -
  have "round_to_grid e x - x = (of_int (round_half_even (x / 2 powi e)) - x / 2 powi e) * 2 powi e"
    by (simp add: round_to_grid_def field_simps)
  then have "\<bar>round_to_grid e x - x\<bar>
      = \<bar>of_int (round_half_even (x / 2 powi e)) - x / 2 powi e\<bar> * 2 powi e"
    by (simp add: abs_mult)
  also have "\<dots> \<le> 1 / 2 * 2 powi e"
    by (intro mult_right_mono round_half_even_error) simp
  finally show ?thesis by simp
qed

lemma round_double_near:
  assumes "2 powi E \<le> \<bar>x\<bar>" and "\<bar>x\<bar> < 2 powi (E + 1)" and "- 1022 \<le> E"
    and "\<bar>x - of_int n * 2 powi (E - 52)\<bar> < 2 powi (E - 52) / 2"
  shows "round_double x = of_int n * 2 powi (E - 52)"
  using round_double_eval [OF assms(1-3)] round_to_grid_near [OF assms(4)] by simp

lemma round_double_is:
  assumes "2 powi E \<le> \<bar>x\<bar>" and "\<bar>x\<bar> < 2 powi (E + 1)" and "- 1022 \<le> E"
    and "\<bar>x - of_int n * 2 powi (E - 52)\<bar> < 2 powi (E - 52) / 2"
    and "of_int n * 2 powi (E - 52) = r"
  shows "round_double x = r"
  using round_double_near [OF assms(1-4)] assms(5) by simp

lemma round_half_even_tie:
  assumes "y = of_int n + 1 / 2" and "even n"
  shows "round_half_even y = n"
proof -
  from assms(1) have "\<lfloor>y\<rfloor> = n" by (intro floor_unique) simp_all
  with assms show ?thesis by (simp add: round_half_even_def)
qed

lemma round_double_tie:
  assumes "2 powi E \<le> \<bar>x\<bar>" and "\<bar>x\<bar> < 2 powi (E + 1)" and "- 1022 \<le> E"
    and "x = (of_int n + 1 / 2) * 2 powi (E - 52)" and "even n"
    and "of_int n * 2 powi (E - 52) = r"
  shows "round_double x = r"
proof -
  from assms(4) have "x / 2 powi (E - 52) = of_int n + 1 / 2" by simp
  then have "round_half_even (x / 2 powi (E - 52)) = n" using assms(5) by (rule round_half_even_tie)
  with round_double_eval [OF assms(1-3)] assms(6) show ?thesis by (simp add: round_to_grid_def)
qed



lemma round_double_exact:
  assumes "\<bar>m\<bar> \<le> 2 ^ 53" and "- 1074 \<le> e" and "x = of_int m * 2 powi e"
  shows "round_double x = x"
  using round_double_on_grid [OF assms(1,2)] assms(3) by simp

lemma float_of_int_pos:
  assumes "0 < n"
  shows "1 \<le> float_of_int n"
proof -
  from assms have "(1::real) \<le> of_int n" by simp
  then have "round_double 1 \<le> round_double (of_int n)" by (rule round_double_mono)
  then show ?thesis by (simp add: float_of_int_def)
qed

subsection \<open>The heap keeps its entries\<close>

lemma mset_update_twice:
  "p < length h \<Longrightarrow> q < length h \<Longrightarrow> p \<noteq> q \<Longrightarrow>
   mset (h[p := h ! q, q := x]) = mset (h[p := x])"
  by (simp add: mset_update nth_list_update)

lemma length_siftdown_loop [simp]:
  "length (siftdown_loop heap startpos pos newitem) = length heap"
  by (induction heap startpos pos newitem rule: siftdown_loop.induct)
     (subst siftdown_loop.simps, simp)

lemma mset_siftdown_loop:
  "pos < length heap \<Longrightarrow>
   mset (siftdown_loop heap startpos pos newitem) = mset (heap[pos := newitem])"
proof (induction heap startpos pos newitem rule: siftdown_loop.induct)
  case (1 heap startpos pos newitem)
  show ?case
  proof (cases "startpos < pos \<and> lt newitem (heap ! ((pos - 1) div 2))")
    case True
    then have lt: "(pos - 1) div 2 < pos" by auto
    with 1 True have
      "mset (siftdown_loop (heap[pos := heap ! ((pos - 1) div 2)]) startpos ((pos - 1) div 2) newitem)
       = mset (heap[pos := heap ! ((pos - 1) div 2), (pos - 1) div 2 := newitem])"
      by simp
    also have "\<dots> = mset (heap[pos := newitem])"
      using lt "1.prems" by (intro mset_update_twice) auto
    finally show ?thesis using True by (subst siftdown_loop.simps) simp
  next
    case False
    then show ?thesis by (subst siftdown_loop.simps) auto
  qed
qed

lemma mset_heappush [simp]: "mset (heappush heap item) = add_mset item (mset heap)"
  by (simp add: heappush_def siftdown_def mset_siftdown_loop)

lemma set_heappush [simp]: "set (heappush heap item) = insert item (set heap)"
  using mset_heappush [of heap item] by (metis set_mset_add_mset_insert set_mset_mset)

lemma smaller_child_bounds:
  "childpos < endpos \<Longrightarrow> childpos \<le> smaller_child heap endpos childpos
     \<and> smaller_child heap endpos childpos < endpos"
  by (simp add: smaller_child_def)

lemma siftup_loop_mset:
  "endpos = length heap \<Longrightarrow> pos < length heap \<Longrightarrow>
   siftup_loop heap endpos pos = (heap', pos') \<Longrightarrow>
   pos' < length heap' \<and> length heap' = length heap
     \<and> mset (heap'[pos' := x]) = mset (heap[pos := x])"
proof (induction heap endpos pos arbitrary: heap' pos' rule: siftup_loop.induct)
  case (1 heap endpos pos)
  show ?case
  proof (cases "2 * pos + 1 < endpos")
    case True
    define c where "c = smaller_child heap endpos (2 * pos + 1)"
    have cb: "2 * pos + 1 \<le> c" "c < endpos"
      using smaller_child_bounds [OF True, of heap] by (simp_all add: c_def)
    have step: "siftup_loop (heap[pos := heap ! c]) endpos c = (heap', pos')"
      using "1.prems"(3) True by (subst (asm) siftup_loop.simps) (simp add: c_def)
    have ih: "pos' < length heap' \<and> length heap' = length (heap[pos := heap ! c])
        \<and> mset (heap'[pos' := x]) = mset (heap[pos := heap ! c, c := x])"
      using "1.IH" [OF True _ _ step [unfolded c_def]] "1.prems"(1) cb
      by (simp add: c_def)
    have "mset (heap[pos := heap ! c, c := x]) = mset (heap[pos := x])"
      using cb "1.prems" by (intro mset_update_twice) auto
    with ih show ?thesis by simp
  next
    case False
    with "1.prems" show ?thesis by (subst (asm) siftup_loop.simps) auto
  qed
qed

lemma mset_siftup:
  assumes "pos < length heap"
  shows "mset (siftup heap pos) = mset heap"
proof -
  obtain heap' pos' where l: "siftup_loop heap (length heap) pos = (heap', pos')"
    by (cases "siftup_loop heap (length heap) pos")
  from siftup_loop_mset [OF refl assms l, of "heap ! pos"]
  have *: "pos' < length heap'" "mset (heap'[pos' := heap ! pos]) = mset heap"
    by simp_all
  have "siftup heap pos = siftdown_loop (heap'[pos' := heap ! pos]) pos pos' (heap ! pos)"
    using * by (simp add: siftup_def l siftdown_def Let_def)
  then show ?thesis using * by (simp add: mset_siftdown_loop)
qed

lemma heappop_None [simp]: "heappop heap = None \<longleftrightarrow> heap = []"
  by (simp add: heappop_def Let_def)

lemma heappop_Nil [simp]: "heappop [] = None"
  by (simp add: heappop_def)

lemma mset_heappop:
  assumes "heappop heap = Some (item, heap')"
  shows "mset heap = add_mset item (mset heap')"
proof -
  from assms have ne: "heap \<noteq> []" by (auto simp: heappop_def)
  then have split: "heap = butlast heap @ [last heap]" by simp
  show ?thesis
  proof (cases "butlast heap = []")
    case True
    with assms ne split show ?thesis
      by (auto simp: heappop_def Let_def)
  next
    case False
    then have pos: "0 < length (butlast heap)"
      by (cases "butlast heap") (simp_all del: length_butlast)
    from assms ne False have item: "item = butlast heap ! 0"
      and heap': "heap' = siftup ((butlast heap)[0 := last heap]) 0"
      by (auto simp: heappop_def Let_def)
    have "mset heap' = mset ((butlast heap)[0 := last heap])"
      using pos by (simp add: heap' mset_siftup)
    also have "\<dots> = add_mset (last heap) (mset (butlast heap) - {#butlast heap ! 0#})"
      using pos by (simp add: mset_update)
    finally have "add_mset item (mset heap') = add_mset (last heap) (mset (butlast heap))"
      using pos by (simp add: item)
    moreover have "mset heap = add_mset (last heap) (mset (butlast heap))"
      by (subst split) simp
    ultimately show ?thesis by simp
  qed
qed

lemma length_heappop:
  "heappop heap = Some (item, heap') \<Longrightarrow> length heap = Suc (length heap')"
  using mset_heappop [of heap item heap'] by (metis size_add_mset size_mset)

lemma pop_n_mset:
  "n \<le> length heap \<Longrightarrow>
   mset (fst (pop_n n heap)) + mset (snd (pop_n n heap)) = mset heap
   \<and> length (fst (pop_n n heap)) = n"
proof (induction n arbitrary: heap)
  case 0
  then show ?case by simp
next
  case (Suc n)
  then have "heap \<noteq> []" by auto
  then obtain item heap' where p: "heappop heap = Some (item, heap')"
    by (cases "heappop heap") auto
  from length_heappop [OF p] Suc.prems have "n \<le> length heap'" by simp
  from Suc.IH [OF this] mset_heappop [OF p] show ?case by (simp add: p)
qed

lemma mset_foldl_heappush: "mset (foldl heappush heap items) = mset heap + mset items"
  by (induction items arbitrary: heap) simp_all

lemma mset_report_status [simp]: "mset (report_status heap) = mset heap"
  using pop_n_mset [of "length heap" heap]
  by (simp add: report_status_def Let_def mset_foldl_heappush add.commute)

lemma heappush_Nil [simp]: "heappush [] item = [item]"
  by (simp add: heappush_def siftdown_def siftdown_loop.simps)


lemma heappop_one [simp]: "heappop [x] = Some (x, [])"
  by (simp add: heappop_def)

lemma heappop_two [simp]: "heappop [x, y] = Some (x, [y])"
  by (simp add: heappop_def siftup_def siftup_loop.simps siftdown_def siftdown_loop.simps)

subsection \<open>Tasks are scheduled once\<close>







lemma initialize_loop_entries:
  "initialize_loop reg config spt clk rn task_groups schedules = Inr result \<Longrightarrow>
   s \<in> set result \<Longrightarrow>
   s \<in> set schedules
   \<or> (0 < total_requests s
      \<and> float_truediv spt (float_of_int (total_requests s + 1)) = Inr (interval s)
      \<and> next_schedule_time s = get_initial_schedule_time (rn (task s)) (clk (task s)) (interval s)
      \<and> remaining_requests s = total_requests s
      \<and> (\<exists>contenders. (task s, contenders) \<in> set task_groups
            \<and> calculate_task_requests reg (task s) contenders config = Inr (total_requests s)))"
proof (induction task_groups arbitrary: schedules)
  case Nil
  then show ?case by simp
next
  case (Cons g task_groups)
  obtain t contenders where g: "g = (t, contenders)" by (cases g)
  from Cons.prems g obtain requests where
    c: "calculate_task_requests reg t contenders config = Inr requests"
    by (cases "calculate_task_requests reg t contenders config") auto
  show ?case
  proof (cases "0 < requests")
    case True
    from Cons.prems(1) g c True obtain interval' where
      d: "float_truediv spt (float_of_int (requests + 1)) = Inr interval'"
      by (cases "float_truediv spt (float_of_int (requests + 1))") auto
    define entry where "entry =
           \<lparr>task = t, total_requests = requests,
            interval = interval',
            next_schedule_time = get_initial_schedule_time (rn t) (clk t) interval',
            remaining_requests = requests\<rparr>"
    from Cons.prems(1) g c True d have
      "initialize_loop reg config spt clk rn task_groups (heappush schedules entry) = Inr result"
      by (simp add: entry_def)
    from Cons.IH [OF this Cons.prems(2)] show ?thesis
    proof (elim disjE)
      assume "s \<in> set (heappush schedules entry)"
      then have "s = entry \<or> s \<in> set schedules" by simp
      then show ?thesis
      proof
        assume "s = entry"
        with True c g d show ?thesis by (auto simp: entry_def)
      qed simp
    next
      assume "0 < total_requests s
      \<and> float_truediv spt (float_of_int (total_requests s + 1)) = Inr (interval s)
      \<and> next_schedule_time s = get_initial_schedule_time (rn (task s)) (clk (task s)) (interval s)
      \<and> remaining_requests s = total_requests s
      \<and> (\<exists>contenders. (task s, contenders) \<in> set task_groups
            \<and> calculate_task_requests reg (task s) contenders config = Inr (total_requests s))"
      then show ?thesis by auto
    qed
  next
    case False
    with Cons.prems(1) g c have
      "initialize_loop reg config spt clk rn task_groups schedules = Inr result"
      by simp
    from Cons.IH [OF this Cons.prems(2)] show ?thesis by auto
  qed
qed

lemma initialize_loop_keeps:
  "initialize_loop reg config spt clk rn task_groups schedules = Inr result \<Longrightarrow>
   set schedules \<subseteq> set result"
proof (induction task_groups arbitrary: schedules)
  case Nil
  then show ?case by simp
next
  case (Cons g task_groups)
  obtain t contenders where g: "g = (t, contenders)" by (cases g)
  from Cons.prems g obtain requests where
    c: "calculate_task_requests reg t contenders config = Inr requests"
    by (cases "calculate_task_requests reg t contenders config") auto
  show ?case
  proof (cases "0 < requests")
    case True
    with Cons.prems g c obtain entry where
      "initialize_loop reg config spt clk rn task_groups (heappush schedules entry) = Inr result"
      by (auto split: sum.splits)
    from Cons.IH [OF this] show ?thesis by simp
  next
    case False
    with Cons.prems g c have "initialize_loop reg config spt clk rn task_groups schedules = Inr result"
      by simp
    then show ?thesis by (rule Cons.IH)
  qed
qed

lemma initialize_loop_complete:
  "initialize_loop reg config spt clk rn task_groups schedules = Inr result \<Longrightarrow>
   (t, contenders) \<in> set task_groups \<Longrightarrow>
   calculate_task_requests reg t contenders config = Inr n \<Longrightarrow> 0 < n \<Longrightarrow>
   \<exists>s\<in>set result. task s = t \<and> total_requests s = n"
proof (induction task_groups arbitrary: schedules)
  case Nil
  then show ?case by simp
next
  case (Cons g task_groups)
  obtain t' contenders' where g: "g = (t', contenders')" by (cases g)
  from Cons.prems(1) g obtain requests where
    c: "calculate_task_requests reg t' contenders' config = Inr requests"
    by (cases "calculate_task_requests reg t' contenders' config") auto
  show ?case
  proof (cases "(t, contenders) = g")
    case True
    with g c Cons.prems(3,4) have r: "requests = n" "0 < requests" "t' = t" by simp_all
    with Cons.prems(1) g c obtain entry where
      e: "initialize_loop reg config spt clk rn task_groups (heappush schedules entry) = Inr result"
        "task entry = t" "total_requests entry = n"
      by (auto split: sum.splits)
    from initialize_loop_keeps [OF e(1)] have "entry \<in> set result" by auto
    with e(2,3) show ?thesis by blast
  next
    case False
    with Cons.prems(2) have m: "(t, contenders) \<in> set task_groups" by simp
    show ?thesis
    proof (cases "0 < requests")
      case True
      with Cons.prems(1) g c obtain entry where
        "initialize_loop reg config spt clk rn task_groups (heappush schedules entry) = Inr result"
        by (auto split: sum.splits)
      from Cons.IH [OF this m Cons.prems(3,4)] show ?thesis .
    next
      case False
      with Cons.prems(1) g c have
        "initialize_loop reg config spt clk rn task_groups schedules = Inr result"
        by simp
      from Cons.IH [OF this m Cons.prems(3,4)] show ?thesis .
    qed
  qed
qed


subsection \<open>The shared store and the waits\<close>

lemma requests_remaining_key_eq [simp]:
  "requests_remaining_key t = requests_remaining_key t' \<longleftrightarrow> t = t'"
  by (simp add: requests_remaining_key_def)

lemma non_synthetic_items_filter:
  "\<forall>item\<in>set all_items. \<exists>items. loads item = Inr (JObject items) \<Longrightarrow>
   non_synthetic_items loads SYNTH all_items =
     Inr (filter (\<lambda>item. \<not> marked_synthetic loads SYNTH item) all_items)"
  by (induction all_items) (auto simp: marked_synthetic_def)

lemma sleep_chunks_pos: "0 < w \<Longrightarrow> sleep_chunks w = min 2 w # sleep_chunks (w - 2)"
  by (subst sleep_chunks.simps) simp

lemma sleep_chunks_nonpos: "\<not> 0 < w \<Longrightarrow> sleep_chunks w = []"
  by (subst sleep_chunks.simps) simp

lemma sleep_chunks_bounds: "d \<in> set (sleep_chunks w) \<Longrightarrow> 0 < d \<and> d \<le> 2"
proof (induction w rule: sleep_chunks.induct)
  case (1 w)
  show ?case
  proof (cases "0 < w")
    case True
    from "1.prems" have "d \<in> set (min 2 w # sleep_chunks (w - 2))"
      by (simp only: sleep_chunks_pos [OF True])
    then have "d = min 2 w \<or> d \<in> set (sleep_chunks (w - 2))"
      by (simp only: set_simps insert_iff)
    then show ?thesis
    proof
      assume "d = min 2 w"
      with True show ?thesis by (simp add: min_def)
    next
      assume "d \<in> set (sleep_chunks (w - 2))"
      with True show ?thesis by (rule "1.IH")
    qed
  next
    case False
    from "1.prems" have "d \<in> set []"
      by (simp only: sleep_chunks_nonpos [OF False])
    then show ?thesis by simp
  qed
qed

lemma sleep_chunks_total: "sum_list (sleep_chunks w) = max w 0"
proof (induction w rule: sleep_chunks.induct)
  case (1 w)
  show ?case
  proof (cases "0 < w")
    case True
    have "sum_list (sleep_chunks w) = min 2 w + sum_list (sleep_chunks (w - 2))"
      by (simp only: sleep_chunks_pos [OF True] sum_list.Cons)
    also have "\<dots> = min 2 w + max (w - 2) 0"
      by (simp only: "1.IH" [OF True])
    also have "\<dots> = max w 0"
      using True by (simp add: min_def max_def)
    finally show ?thesis .
  next
    case False
    have "sum_list (sleep_chunks w) = 0"
      by (simp only: sleep_chunks_nonpos [OF False] sum_list.Nil)
    with False show ?thesis by (simp add: max_def)
  qed
qed


lemma sleep_chunks_5: "sleep_chunks 5 = [2, 2, 1]"
  by (simp add: sleep_chunks.simps)

subsection \<open>One iteration and the states of a cycle\<close>



lemma iteration_tasks_dropped:
  "get_redis_remaining_requests (others env (redis_db st)) (task schedule) \<le> 0 \<Longrightarrow>
   task_schedules (snd (iteration add_q start scoring_period_time env schedule st)) = task_schedules st"
  by (simp add: iteration_def Let_def)






subsection \<open>The sample cycle\<close>










subsection \<open>Sample values in double arithmetic\<close>

lemma sample_capacity: "builtin_sum (map capacity_to_score (sample_contenders t)) = 100"
  by (simp add: builtin_sum_def float_add_def sample_contenders_def)


lemma sample_interval: "round_double (3600 / 11) = 1439360676361309 / 4398046511104"
  by (rule round_double_is [where E = 8 and n = 5757442705445236])
     (simp_all add: power_int_minus)

lemma sample_jitter:
  "float_mul (1 / 2) (1439360676361309 / 4398046511104) = 1439360676361309 / 8796093022208"
proof -
  have "round_double (1439360676361309 / 8796093022208) = 1439360676361309 / 8796093022208"
    by (rule round_double_exact [where m = 1439360676361309 and e = "- 43"])
       (simp_all add: power_int_minus)
  then show ?thesis by (simp add: float_mul_def)
qed

lemma sample_first:
  "float_add 1000 (1439360676361309 / 8796093022208) = 2558863424642327 / 2199023255552"
  unfolding float_add_def
  by (rule round_double_tie [where E = 10 and n = 5117726849284654])
     (simp_all add: power_int_minus)



lemma sample_late_jitter: "float_mul (1 - 1 / 2 ^ 53) 450 = 450 - 1 / 2 ^ 44"
  unfolding float_mul_def
  by (rule round_double_is [where E = 8 and n = "450 * 2 ^ 44 - 1"])
     (simp_all add: power_int_minus)

lemma sample_late_first: "float_add 1700000000 (450 - 1 / 2 ^ 44) = 1700000450"
  unfolding float_add_def
  by (rule round_double_is [where E = 30 and n = "1700000450 * 2 ^ 22"])
     (simp_all add: power_int_minus)


lemma sample_volume:
  "calculate_task_requests sample_registry ''u'' (sample_contenders ''u'')
     \<lparr>scoring_period_time_multiplier = 1\<rparr> = Inr 10"
  by (simp add: calculate_task_requests_def get_enabled_task_config_def sample_registry_def
      sample_capacity float_mul_def float_truediv_def py_int_def)

lemma sample_initial:
  "initialize_task_schedules 3600 sample_registry (\<lambda>t. 1000) (\<lambda>t. 1 / 2)
     [(''off'', sample_contenders ''off''), (''u'', sample_contenders ''u'')]
     \<lparr>scoring_period_time_multiplier = 1\<rparr> = Inr [sample_entry]"
proof -
  have off: "calculate_task_requests sample_registry ''off'' (sample_contenders ''off'')
      \<lparr>scoring_period_time_multiplier = 1\<rparr> = Inr 0"
    by (simp add: calculate_task_requests_def get_enabled_task_config_def sample_registry_def)
  have d: "float_truediv (float_mul 3600 1) (float_of_int 11)
      = Inr (1439360676361309 / 4398046511104)"
    by (simp add: float_truediv_def float_mul_def float_of_int_def sample_interval)
  have g: "get_initial_schedule_time (1 / 2) 1000 (1439360676361309 / 4398046511104)
      = 2558863424642327 / 2199023255552"
    by (simp only: get_initial_schedule_time_def sample_jitter sample_first)
  show ?thesis
    by (simp add: initialize_task_schedules_def off sample_volume d sample_entry_def)
       (simp only: g)
qed

section \<open>Claims about the scheduler\<close>

text \<open>
  Claim C1 (drift correction). Take an iteration that reaches the read of the shared
  counter, that is, one the test before the wait does not end. If the value read,
  \<open>latest\<close>, is positive and smaller than the local \<open>remaining_requests\<close>, the iteration
  continues the loop in the state where: the store is the one that was read (no job is
  enqueued and the counter still reads \<open>latest\<close>), and the entry is pushed back on the heap
  with \<open>remaining_requests = latest\<close> and \<open>next_schedule_time\<close> advanced by
  \<open>interval * (remaining_requests - latest)\<close>.
\<close>

theorem drift_correction:
  assumes "\<not> stops_before_wait start scoring_period_time env schedule"
    and "latest = get_redis_remaining_requests (others env (redis_db st)) (task schedule)"
    and "0 < latest" and "latest < remaining_requests schedule"
  shows "iteration add_q start scoring_period_time env schedule st =
           (Continue,
            st\<lparr>sleeps := sleeps st @ sleep_chunks (time_to_sleep_of env schedule),
               redis_db := others env (redis_db st),
               task_schedules :=
                 heappush (task_schedules st)
                   (schedule\<lparr>next_schedule_time :=
                                next_schedule_time schedule
                                  + interval schedule
                                      * real_of_int (remaining_requests schedule - latest),
                              remaining_requests := latest\<rparr>)\<rparr>)
         \<and> get_redis_remaining_requests
             (redis_db (snd (iteration add_q start scoring_period_time env schedule st)))
             (task schedule) = latest"
  using assms by (simp add: iteration_def Let_def)

text \<open>
  The example of the specification: local remaining 5, shared counter 3, interval 10; the
  entry goes back with remaining 3 and its time moved from 100 to 120.
\<close>

theorem drift_correction_witness:
  "iteration sample_add_q 0 3600 sample_env sample_schedule (sample_state 3) =
     (Continue,
      \<lparr>task_schedules = [sample_schedule\<lparr>next_schedule_time := 120, remaining_requests := 3\<rparr>],
       redis_db = sample_redis 3, iterations = 1, sleeps = []\<rparr>)
   \<and> get_redis_remaining_requests
       (redis_db (snd (iteration sample_add_q 0 3600 sample_env sample_schedule (sample_state 3))))
       ''t'' = 3"
  using drift_correction [of 0 3600 sample_env sample_schedule 3 "sample_state 3" sample_add_q]
  by (simp add: sample_env_def sample_schedule_def sample_state_def sample_redis_def
      stops_before_wait_def time_to_sleep_of_def get_redis_remaining_requests_def
      sleep_chunks.simps)

text \<open>
  Claim C2 (issuance). Take an iteration that reaches the read of the shared counter. If
  \<open>latest\<close> is positive and at least the local \<open>remaining_requests\<close>, the enqueue utility is
  called once, for this task and with the cap 100, and then the counter is written as
  \<open>latest - 1\<close>; the entry gets \<open>next_schedule_time = now + interval\<close>, with the clock read
  after the write, and \<open>remaining_requests = latest - 1\<close>, and it is pushed back when that
  is positive. The loop then ends if the scoring period has elapsed, and every hundredth
  iteration that does not end the loop rebuilds the heap for the report.
\<close>

theorem issuance_step:
  assumes "\<not> stops_before_wait start scoring_period_time env schedule"
    and "latest = get_redis_remaining_requests (others env (redis_db st)) (task schedule)"
    and "0 < latest" and "remaining_requests schedule \<le> latest"
    and "issued = schedule\<lparr>next_schedule_time := time_issue env + interval schedule,
                             remaining_requests := latest - 1\<rparr>"
    and "heap = (if 0 < latest - 1 then heappush (task_schedules st) issued
                 else task_schedules st)"
  shows "redis_db (snd (iteration add_q start scoring_period_time env schedule st)) =
           update_redis_remaining_requests
             (add_q (others env (redis_db st)) (task schedule) 100) (task schedule) (latest - 1)
         \<and> get_redis_remaining_requests
             (redis_db (snd (iteration add_q start scoring_period_time env schedule st)))
             (task schedule) = latest - 1
         \<and> fst (iteration add_q start scoring_period_time env schedule st) =
             (if scoring_period_time < time_end env - start then Break else Continue)
         \<and> task_schedules (snd (iteration add_q start scoring_period_time env schedule st)) =
             (if \<not> scoring_period_time < time_end env - start \<and> iterations st mod 100 = 0
              then report_status heap else heap)"
  using assms
  by (simp add: iteration_def Let_def update_redis_remaining_requests_def
      get_redis_remaining_requests_def)

text \<open>
  With local remaining 5 and shared counter 5: one job on the queue, counter 4, entry
  pushed back with remaining 4 and time 102 + 10.
\<close>

theorem issuance_step_witness:
  "redis_db (snd (iteration sample_add_q 0 3600 sample_env sample_schedule (sample_state 5))) =
     \<lparr>strings = [requests_remaining_key ''t'' \<mapsto> 4], query_queue = [''t'']\<rparr>
   \<and> get_redis_remaining_requests
       (redis_db (snd (iteration sample_add_q 0 3600 sample_env sample_schedule (sample_state 5))))
       ''t'' = 4
   \<and> fst (iteration sample_add_q 0 3600 sample_env sample_schedule (sample_state 5)) = Continue
   \<and> task_schedules (snd (iteration sample_add_q 0 3600 sample_env sample_schedule (sample_state 5))) =
       [sample_schedule\<lparr>next_schedule_time := 112, remaining_requests := 4\<rparr>]"
  using issuance_step [of 0 3600 sample_env sample_schedule 5 "sample_state 5"
      "sample_schedule\<lparr>next_schedule_time := 112, remaining_requests := 4\<rparr>"
      "[sample_schedule\<lparr>next_schedule_time := 112, remaining_requests := 4\<rparr>]" sample_add_q]
  by (simp add: sample_env_def sample_schedule_def sample_state_def sample_redis_def
      stops_before_wait_def time_to_sleep_of_def get_redis_remaining_requests_def
      update_redis_remaining_requests_def sample_add_q_def)




text \<open>
  Claim C4 (schedule initialization), as amended. Every entry of the initial schedules
  has a positive \<open>total_requests\<close>; its interval is the double quotient of the scoring
  period, itself the double product of \<open>SCORING_PERIOD_TIME\<close> and the multiplier, by
  \<open>total_requests + 1\<close>; and its \<open>next_schedule_time\<close> is the double sum of \<open>now\<close> and the
  double product of \<open>r\<close> and the interval, where \<open>now\<close> and \<open>r\<close> are the clock reading and the
  random number of the task's turn. When the scoring period is not negative, \<open>now\<close> is a
  double and \<open>r\<close> lies in the unit interval, \<open>next_schedule_time\<close> lies in the closed range
  from \<open>now\<close> to the double sum of \<open>now\<close> and the interval. Every group whose volume is
  positive has an entry in the result, with that volume as \<open>total_requests\<close>.
\<close>

theorem schedule_initialization:
  assumes "initialize_task_schedules SPT reg clk rn task_groups config = Inr schedules"
  shows "(\<forall>s\<in>set schedules.
            0 < total_requests s
          \<and> interval s = round_double (round_double (SPT * scoring_period_time_multiplier config)
                                        / round_double (of_int (total_requests s + 1)))
          \<and> next_schedule_time s
              = round_double (clk (task s) + round_double (rn (task s) * interval s))
          \<and> remaining_requests s = total_requests s
          \<and> (0 \<le> SPT * scoring_period_time_multiplier config
               \<and> round_double (clk (task s)) = clk (task s)
               \<and> 0 \<le> rn (task s) \<and> rn (task s) < 1
             \<longrightarrow> clk (task s) \<le> next_schedule_time s
                 \<and> next_schedule_time s \<le> round_double (clk (task s) + interval s)))
       \<and> (\<forall>g\<in>set task_groups. \<forall>n. calculate_task_requests reg (fst g) (snd g) config = Inr n \<and> 0 < n
             \<longrightarrow> (\<exists>s\<in>set schedules. task s = fst g \<and> total_requests s = n))"
proof (intro conjI ballI allI impI)
  define spt where "spt = float_mul SPT (scoring_period_time_multiplier config)"
  from assms have loop: "initialize_loop reg config spt clk rn task_groups [] = Inr schedules"
    by (simp add: initialize_task_schedules_def spt_def)
  {
    fix s
    assume s: "s \<in> set schedules"
    from initialize_loop_entries [OF loop s]
    have e: "0 < total_requests s"
      "float_truediv spt (float_of_int (total_requests s + 1)) = Inr (interval s)"
      "next_schedule_time s = float_add (clk (task s)) (float_mul (rn (task s)) (interval s))"
      "remaining_requests s = total_requests s"
      by (simp_all add: get_initial_schedule_time_def)
    from e(1) have d: "1 \<le> float_of_int (total_requests s + 1)" by (intro float_of_int_pos) simp
    with e(2) have i: "interval s = round_double (spt / float_of_int (total_requests s + 1))"
      by (simp add: float_truediv_def split: if_splits)
    from e(1) show "0 < total_requests s" .
    from i show "interval s = round_double (round_double (SPT * scoring_period_time_multiplier config)
                                        / round_double (of_int (total_requests s + 1)))"
      by (simp add: spt_def float_mul_def float_of_int_def)
    from e(3) show "next_schedule_time s
              = round_double (clk (task s) + round_double (rn (task s) * interval s))"
      by (simp add: float_add_def float_mul_def)
    from e(4) show "remaining_requests s = total_requests s" .
    assume h: "0 \<le> SPT * scoring_period_time_multiplier config
               \<and> round_double (clk (task s)) = clk (task s)
               \<and> 0 \<le> rn (task s) \<and> rn (task s) < 1"
    then have "0 \<le> spt" unfolding spt_def float_mul_def by (intro round_double_nonneg) simp
    then have "0 \<le> spt / float_of_int (total_requests s + 1)" using d by simp
    then have pos: "0 \<le> interval s" unfolding i by (rule round_double_nonneg)
    have idem: "round_double (interval s) = interval s" by (simp add: i)
    from h pos have "0 \<le> rn (task s) * interval s" by simp
    then have j0: "0 \<le> float_mul (rn (task s)) (interval s)"
      unfolding float_mul_def by (rule round_double_nonneg)
    from h pos have "rn (task s) * interval s \<le> 1 * interval s"
      by (intro mult_right_mono) simp_all
    then have "float_mul (rn (task s)) (interval s) \<le> round_double (interval s)"
      unfolding float_mul_def using round_double_mono [of "rn (task s) * interval s" "interval s"]
      by simp
    with idem have j1: "float_mul (rn (task s)) (interval s) \<le> interval s" by simp
    from j0 have "round_double (clk (task s))
        \<le> round_double (clk (task s) + float_mul (rn (task s)) (interval s))"
      by (intro round_double_mono) simp
    with h e(3) show "clk (task s) \<le> next_schedule_time s" by (simp add: float_add_def)
    from j1 have "round_double (clk (task s) + float_mul (rn (task s)) (interval s))
        \<le> round_double (clk (task s) + interval s)"
      by (intro round_double_mono) simp
    with e(3) show "next_schedule_time s \<le> round_double (clk (task s) + interval s)"
      by (simp add: float_add_def)
  }
  fix g n
  assume g: "g \<in> set task_groups"
    and c: "calculate_task_requests reg (fst g) (snd g) config = Inr n \<and> 0 < n"
  from g have "(fst g, snd g) \<in> set task_groups" by simp
  from initialize_loop_complete [OF loop this] c
  show "\<exists>s\<in>set schedules. task s = fst g \<and> total_requests s = n" by blast
qed

text \<open>
  The example of the specification: 10 requests in 3600 seconds give the double nearest
  to \<open>3600 / 11\<close> as interval; with \<open>now = 1000\<close> and \<open>r = 1 / 2\<close> the first time is inside
  the range, and the one group of positive volume has its entry.
\<close>

theorem schedule_initialization_witness:
  "initialize_task_schedules 3600 sample_registry (\<lambda>t. 1000) (\<lambda>t. 1 / 2)
       [(''off'', sample_contenders ''off''), (''u'', sample_contenders ''u'')]
       \<lparr>scoring_period_time_multiplier = 1\<rparr> = Inr [sample_entry]
   \<and> total_requests sample_entry = 10
   \<and> interval sample_entry = round_double (3600 / 11)
   \<and> interval sample_entry = 1439360676361309 / 4398046511104
   \<and> next_schedule_time sample_entry = 2558863424642327 / 2199023255552
   \<and> 1000 \<le> next_schedule_time sample_entry
   \<and> next_schedule_time sample_entry \<le> round_double (1000 + interval sample_entry)
   \<and> calculate_task_requests sample_registry ''u'' (sample_contenders ''u'')
       \<lparr>scoring_period_time_multiplier = 1\<rparr> = Inr 10
   \<and> task sample_entry = ''u''"
proof -
  let ?cfg = "\<lparr>scoring_period_time_multiplier = 1\<rparr>"
  let ?groups = "[(''off'', sample_contenders ''off''), (''u'', sample_contenders ''u'')]"
  have i: "initialize_task_schedules 3600 sample_registry (\<lambda>t. 1000) (\<lambda>t. 1 / 2) ?groups ?cfg
      = Inr [sample_entry]"
    by (rule sample_initial)
  note t = schedule_initialization [OF i]
  from t [THEN conjunct1, rule_format, of sample_entry]
  have r: "1000 \<le> next_schedule_time sample_entry
      \<and> next_schedule_time sample_entry \<le> round_double (1000 + interval sample_entry)"
    by (simp add: sample_entry_def)
  from t [THEN conjunct2, rule_format, of "(''u'', sample_contenders ''u'')" 10]
  have e: "task sample_entry = ''u'' \<and> total_requests sample_entry = 10"
    by (simp add: sample_volume)
  from i r e show ?thesis
    by (simp add: sample_entry_def sample_volume sample_interval)
qed

text \<open>
  The half-open range of the claim as first stated fails at the top: with a clock reading
  of 1700000000, an interval of 450 and the largest double below 1 as random number, the
  product rounds to \<open>450 - 1 / 2 ^ 44\<close> and the sum to \<open>now + interval\<close> itself.
\<close>

theorem schedule_initialization_counterexample:
  "initialize_task_schedules 3600 sample_registry (\<lambda>t. 1700000000) (\<lambda>t. 1 - 1 / 2 ^ 53)
       [(''u'', [\<lparr>contender_task = ''u'', capacity_to_score = 70\<rparr>])]
       \<lparr>scoring_period_time_multiplier = 1\<rparr>
     = Inr [\<lparr>task = ''u'', total_requests = 7, interval = 450,
             next_schedule_time = 1700000450, remaining_requests = 7\<rparr>]
   \<and> get_initial_schedule_time (1 - 1 / 2 ^ 53) 1700000000 450 = 1700000000 + 450
   \<and> round_double (1 - 1 / 2 ^ 53) = 1 - 1 / 2 ^ 53
   \<and> \<not> get_initial_schedule_time (1 - 1 / 2 ^ 53) 1700000000 450 < 1700000000 + 450"
proof -
  have g: "get_initial_schedule_time (1 - 1 / 2 ^ 53) 1700000000 450 = 1700000450"
    by (simp only: get_initial_schedule_time_def sample_late_jitter sample_late_first)
  then have g': "get_initial_schedule_time (9007199254740991 / 9007199254740992) 1700000000 450
      = 1700000450"
    by simp
  have c: "calculate_task_requests sample_registry ''u''
      [\<lparr>contender_task = ''u'', capacity_to_score = 70\<rparr>] \<lparr>scoring_period_time_multiplier = 1\<rparr> = Inr 7"
    by (simp add: calculate_task_requests_def get_enabled_task_config_def sample_registry_def
        builtin_sum_def float_add_def float_mul_def float_truediv_def py_int_def)
  have d: "float_truediv (float_mul 3600 1) (float_of_int 8) = Inr 450"
    by (simp add: float_truediv_def float_mul_def float_of_int_def)
  have i: "initialize_task_schedules 3600 sample_registry (\<lambda>t. 1700000000) (\<lambda>t. 1 - 1 / 2 ^ 53)
       [(''u'', [\<lparr>contender_task = ''u'', capacity_to_score = 70\<rparr>])]
       \<lparr>scoring_period_time_multiplier = 1\<rparr>
     = Inr [\<lparr>task = ''u'', total_requests = 7, interval = 450,
             next_schedule_time = 1700000450, remaining_requests = 7\<rparr>]"
    by (simp add: initialize_task_schedules_def c d g')
  have r: "round_double (1 - 1 / 2 ^ 53) = 1 - 1 / 2 ^ 53"
    by (rule round_double_exact [where m = "2 ^ 53 - 1" and e = "- 53"])
       (simp_all add: power_int_minus)
  from i g r show ?thesis by simp
qed

text \<open>
  Claim C5 (queue purge). When every item of the work queue decodes to a JSON object,
  clearing the old synthetic queries leaves on the queue exactly the items that are not
  marked synthetic, in their original order, and changes nothing else in the store.
\<close>

theorem queue_purge:
  assumes "\<forall>item\<in>set (query_queue redis). \<exists>items. loads item = Inr (JObject items)"
  shows "clear_old_synthetic_queries loads SYNTH redis =
           Inr (redis\<lparr>query_queue :=
                        filter (\<lambda>item. \<not> marked_synthetic loads SYNTH item) (query_queue redis)\<rparr>)"
  using non_synthetic_items_filter [OF assms, of SYNTH]
  by (simp add: clear_old_synthetic_queries_def Let_def)

text \<open>
  A queue of two synthetic items, an organic one and one without the field: the last two
  stay, in order.
\<close>

theorem queue_purge_witness:
  "clear_old_synthetic_queries sample_loads ''synthetic''
     \<lparr>strings = Map.empty, query_queue = [''s1'', ''o1'', ''s2'', ''o2'']\<rparr>
   = Inr \<lparr>strings = Map.empty, query_queue = [''o1'', ''o2'']\<rparr>"
  using queue_purge [of "\<lparr>strings = Map.empty, query_queue = [''s1'', ''o1'', ''s2'', ''o2'']\<rparr>"
      sample_loads "''synthetic''"]
  by (simp add: sample_loads_def marked_synthetic_def)




text \<open>
  Claim C7 (cycle time bound), as amended. A wait is a list of sleeps, each positive and
  at most 2 seconds, whose sum is the wait. When the time to sleep is positive and, at
  the second reading of the clock, elapsed time plus the time to sleep exceeds the scoring
  period, the loop ends at once: no sleep, no write, and the popped entry is not pushed
  back. So an iteration that does anything else, and with it every job enqueued after a
  wait, had elapsed time plus wait within the scoring period when the wait began. After
  a request was issued the loop ends when the elapsed time exceeds the scoring period;
  by then the entry is already back on the heap when requests remain for it.
\<close>

theorem cycle_time_bound:
  "(\<forall>d \<in> set (sleep_chunks time_to_sleep). 0 < d \<and> d \<le> 2)
   \<and> (0 < time_to_sleep \<longrightarrow> sum_list (sleep_chunks time_to_sleep) = time_to_sleep)
   \<and> (stops_before_wait start scoring_period_time env schedule \<longrightarrow>
        iteration add_q start scoring_period_time env schedule st = (Break, st))
   \<and> (iteration add_q start scoring_period_time env schedule st \<noteq> (Break, st) \<longrightarrow>
        sleeps (snd (iteration add_q start scoring_period_time env schedule st))
          = sleeps st @ sleep_chunks (time_to_sleep_of env schedule)
        \<and> (0 < time_to_sleep_of env schedule \<longrightarrow>
             time_check env - start + time_to_sleep_of env schedule \<le> scoring_period_time))
   \<and> (\<not> stops_before_wait start scoring_period_time env schedule
        \<and> 0 < get_redis_remaining_requests (others env (redis_db st)) (task schedule)
        \<and> remaining_requests schedule
            \<le> get_redis_remaining_requests (others env (redis_db st)) (task schedule)
        \<and> scoring_period_time < time_end env - start \<longrightarrow>
        fst (iteration add_q start scoring_period_time env schedule st) = Break
        \<and> task_schedules (snd (iteration add_q start scoring_period_time env schedule st)) =
            (if 1 < get_redis_remaining_requests (others env (redis_db st)) (task schedule)
             then heappush (task_schedules st)
                    (schedule\<lparr>next_schedule_time := time_issue env + interval schedule,
                               remaining_requests :=
                                 get_redis_remaining_requests (others env (redis_db st)) (task schedule)
                                   - 1\<rparr>)
             else task_schedules st))
   \<and> (heappop heap = Some (schedule, rest)
        \<and> fst (iteration add_q start scoring_period_time env schedule
                 (st\<lparr>task_schedules := rest, iterations := iterations st + 1\<rparr>)) = Break
        \<and> task_schedules st = heap \<longrightarrow>
        schedule_loop add_q start scoring_period_time (env # envs) st =
          Some (snd (iteration add_q start scoring_period_time env schedule
                       (st\<lparr>task_schedules := rest, iterations := iterations st + 1\<rparr>))))"
proof (intro conjI ballI impI)
  fix d assume "d \<in> set (sleep_chunks time_to_sleep)"
  then have "0 < d \<and> d \<le> 2" by (rule sleep_chunks_bounds)
  then show "0 < d" and "d \<le> 2" by simp_all
next
  assume "0 < time_to_sleep"
  then show "sum_list (sleep_chunks time_to_sleep) = time_to_sleep"
    by (simp add: sleep_chunks_total)
next
  assume "stops_before_wait start scoring_period_time env schedule"
  then show "iteration add_q start scoring_period_time env schedule st = (Break, st)"
    by (simp add: iteration_def)
next
  assume a: "iteration add_q start scoring_period_time env schedule st \<noteq> (Break, st)"
  then have n: "\<not> stops_before_wait start scoring_period_time env schedule"
    by (auto simp: iteration_def)
  then show "sleeps (snd (iteration add_q start scoring_period_time env schedule st))
          = sleeps st @ sleep_chunks (time_to_sleep_of env schedule)"
    by (simp add: iteration_def Let_def)
  { assume "0 < time_to_sleep_of env schedule"
    with n show "time_check env - start + time_to_sleep_of env schedule \<le> scoring_period_time"
      by (simp add: stops_before_wait_def) }
next
  assume a: "\<not> stops_before_wait start scoring_period_time env schedule
        \<and> 0 < get_redis_remaining_requests (others env (redis_db st)) (task schedule)
        \<and> remaining_requests schedule
            \<le> get_redis_remaining_requests (others env (redis_db st)) (task schedule)
        \<and> scoring_period_time < time_end env - start"
  then show "fst (iteration add_q start scoring_period_time env schedule st) = Break"
    by (simp add: iteration_def Let_def)
  from a show "task_schedules (snd (iteration add_q start scoring_period_time env schedule st)) =
            (if 1 < get_redis_remaining_requests (others env (redis_db st)) (task schedule)
             then heappush (task_schedules st)
                    (schedule\<lparr>next_schedule_time := time_issue env + interval schedule,
                               remaining_requests :=
                                 get_redis_remaining_requests (others env (redis_db st)) (task schedule)
                                   - 1\<rparr>)
             else task_schedules st)"
    by (simp add: iteration_def Let_def)
next
  assume a: "heappop heap = Some (schedule, rest)
        \<and> fst (iteration add_q start scoring_period_time env schedule
                 (st\<lparr>task_schedules := rest, iterations := iterations st + 1\<rparr>)) = Break
        \<and> task_schedules st = heap"
  obtain f st' where r: "iteration add_q start scoring_period_time env schedule
                 (st\<lparr>task_schedules := rest, iterations := iterations st + 1\<rparr>) = (f, st')"
    by (cases "iteration add_q start scoring_period_time env schedule
                 (st\<lparr>task_schedules := rest, iterations := iterations st + 1\<rparr>)")
  with a show "schedule_loop add_q start scoring_period_time (env # envs) st =
          Some (snd (iteration add_q start scoring_period_time env schedule
                       (st\<lparr>task_schedules := rest, iterations := iterations st + 1\<rparr>)))"
    by simp
qed

text \<open>
  An entry due at 100 popped at 95: under a period of 98 the loop ends before the wait and
  the entry is gone; under a period of 3600 the iteration sleeps 2, 2 and 1 seconds.
\<close>

theorem cycle_time_bound_witness:
  "sleep_chunks 5 = [2, 2, 1]
   \<and> sum_list (sleep_chunks 5) = 5
   \<and> stops_before_wait 0 98 sample_env_wait sample_schedule
   \<and> iteration sample_add_q 0 98 sample_env_wait sample_schedule (sample_state 5)
       = (Break, sample_state 5)
   \<and> iteration sample_add_q 0 3600 sample_env_wait sample_schedule (sample_state 5)
       \<noteq> (Break, sample_state 5)
   \<and> sleeps (snd (iteration sample_add_q 0 3600 sample_env_wait sample_schedule (sample_state 5)))
       = [2, 2, 1]
   \<and> time_check sample_env_wait - 0 + time_to_sleep_of sample_env_wait sample_schedule \<le> 3600
   \<and> schedule_loop sample_add_q 0 98 [sample_env_wait]
        \<lparr>task_schedules = [sample_schedule], redis_db = sample_redis 5, iterations = 0, sleeps = []\<rparr>
       = Some (sample_state 5)"
proof -
  have s: "stops_before_wait 0 98 sample_env_wait sample_schedule"
    by (simp add: stops_before_wait_def time_to_sleep_of_def sample_env_wait_def sample_schedule_def)
  have n: "\<not> stops_before_wait 0 3600 sample_env_wait sample_schedule"
    by (simp add: stops_before_wait_def time_to_sleep_of_def sample_env_wait_def sample_schedule_def)
  have t: "time_to_sleep_of sample_env_wait sample_schedule = 5"
    by (simp add: time_to_sleep_of_def sample_env_wait_def sample_schedule_def)
  have st: "sample_state 5\<lparr>task_schedules := [], iterations := 0 + 1\<rparr> = sample_state 5"
    by (simp add: sample_state_def)
  have ne: "iteration sample_add_q 0 3600 sample_env_wait sample_schedule (sample_state 5)
       \<noteq> (Break, sample_state 5)"
    by (simp add: iteration_def stops_before_wait_def time_to_sleep_of_def sleep_chunks_5 Let_def
        sample_state_def sample_redis_def sample_schedule_def sample_env_wait_def
        get_redis_remaining_requests_def)
  note b = cycle_time_bound [of 5 0 98 sample_env_wait sample_schedule sample_add_q "sample_state 5"
      "[sample_schedule]" "[]" "[]"]
  note c = cycle_time_bound [of 5 0 3600 sample_env_wait sample_schedule sample_add_q "sample_state 5"
      "[sample_schedule]" "[]" "[]"]
  have 1: "iteration sample_add_q 0 98 sample_env_wait sample_schedule (sample_state 5)
       = (Break, sample_state 5)"
    using b s by blast
  have 2: "sleeps (snd (iteration sample_add_q 0 3600 sample_env_wait sample_schedule (sample_state 5)))
       = [2, 2, 1]"
    using c ne by (simp add: t sleep_chunks_5 sample_state_def)
  have 3: "time_check sample_env_wait - 0 + time_to_sleep_of sample_env_wait sample_schedule \<le> 3600"
    using c ne by (simp add: t)
  have 4: "schedule_loop sample_add_q 0 98 [sample_env_wait]
        \<lparr>task_schedules = [sample_schedule], redis_db = sample_redis 5, iterations = 0, sleeps = []\<rparr>
       = Some (sample_state 5)"
    using 1 by (simp add: sample_state_def)
  from s 1 ne 2 3 4 show ?thesis by (simp add: sleep_chunks_5)
qed

text \<open>
  The claim as first stated has the loop end "without requeuing the task" also when the
  elapsed time exceeds the scoring period after an iteration. It does not: an entry due
  at 100 with 5 requests left, popped at 3599 under a period of 3600, gets its request
  issued, is pushed back with 4 requests left, and only then does the loop end, at 3601.
  And an iteration that ends by the drift path reads the clock no more: popped at 4000
  with the shared counter at 3, the same entry is pushed back and the loop goes on.
\<close>

theorem cycle_time_bound_counterexample:
  "fst (iteration sample_add_q 0 3600 sample_env_late sample_schedule (sample_state 5)) = Break
   \<and> 3600 < time_end sample_env_late - 0
   \<and> task_schedules (snd (iteration sample_add_q 0 3600 sample_env_late sample_schedule (sample_state 5)))
       = [sample_schedule\<lparr>next_schedule_time := 3610, remaining_requests := 4\<rparr>]
   \<and> schedule_loop sample_add_q 0 3600 [sample_env_late]
        \<lparr>task_schedules = [sample_schedule], redis_db = sample_redis 5, iterations = 0, sleeps = []\<rparr>
       = Some \<lparr>task_schedules = [sample_schedule\<lparr>next_schedule_time := 3610, remaining_requests := 4\<rparr>],
               redis_db = \<lparr>strings = [requests_remaining_key ''t'' \<mapsto> 4], query_queue = [''t'']\<rparr>,
               iterations = 1, sleeps = []\<rparr>
   \<and> 3600 < time_pop sample_env_past - 0
   \<and> iteration sample_add_q 0 3600 sample_env_past sample_schedule (sample_state 3)
       = (Continue,
          \<lparr>task_schedules = [sample_schedule\<lparr>next_schedule_time := 120, remaining_requests := 3\<rparr>],
           redis_db = sample_redis 3, iterations = 1, sleeps = []\<rparr>)"
  by (simp add: iteration_def stops_before_wait_def time_to_sleep_of_def sample_env_late_def
      sample_env_past_def sample_schedule_def sample_state_def sample_redis_def
      get_redis_remaining_requests_def update_redis_remaining_requests_def sample_add_q_def
      sleep_chunks_nonpos Let_def)

text \<open>
  Claim C10 (missing counter). Reading the counter of a task whose key is absent from the
  store gives 0. So an entry whose counter key is absent when the iteration reads it is
  dropped: the heap stays as the pop left it, whatever the local \<open>remaining_requests\<close>,
  and the store is not written (the iteration continues the loop, or the test before the
  wait has ended it).
\<close>

theorem missing_counter_exhausted:
  "(strings redis (requests_remaining_key t) = None \<longrightarrow> get_redis_remaining_requests redis t = 0)
   \<and> (strings (others env (redis_db st)) (requests_remaining_key (task schedule)) = None \<longrightarrow>
        task_schedules (snd (iteration add_q start scoring_period_time env schedule st))
          = task_schedules st
        \<and> (\<not> stops_before_wait start scoring_period_time env schedule \<longrightarrow>
             iteration add_q start scoring_period_time env schedule st =
               (Continue, st\<lparr>sleeps := sleeps st @ sleep_chunks (time_to_sleep_of env schedule),
                              redis_db := others env (redis_db st)\<rparr>))
        \<and> (stops_before_wait start scoring_period_time env schedule \<longrightarrow>
             iteration add_q start scoring_period_time env schedule st = (Break, st)))"
  by (simp add: iteration_def Let_def get_redis_remaining_requests_def)

text \<open>
  An entry with 5 requests left whose key another party deleted: dropped, nothing enqueued.
\<close>

theorem missing_counter_exhausted_witness:
  "get_redis_remaining_requests
     (others sample_env_deleted (redis_db (sample_state 5))) ''t'' = 0
   \<and> 0 < remaining_requests sample_schedule
   \<and> iteration sample_add_q 0 3600 sample_env_deleted sample_schedule (sample_state 5) =
       (Continue,
        \<lparr>task_schedules = [],
         redis_db = \<lparr>strings = Map.empty, query_queue = []\<rparr>,
         iterations = 1, sleeps = []\<rparr>)"
  using missing_counter_exhausted [of "others sample_env_deleted (redis_db (sample_state 5))" "''t''"
      sample_env_deleted "sample_state 5" sample_schedule sample_add_q 0 3600]
  by (simp add: sample_env_deleted_def sample_state_def sample_redis_def sample_schedule_def
      stops_before_wait_def time_to_sleep_of_def sleep_chunks.simps)

section \<open>Claims about the node registry\<close>

text \<open>
  Claim C8 (\<^verbatim>\<open>get_node\<close>). When no row of the live table has the node id and the netuid,
  \<^verbatim>\<open>get_node\<close> raises (the \<^verbatim>\<open>ValueError\<close> the specification calls NotFound). When a row
  is fetched, it is a row of the table with that node id and netuid; if the constructor
  of the encryption handle raises on its stored key the result is \<^verbatim>\<open>None\<close>, and otherwise
  the result is the node that carries every selected column of that row, field by field,
  and the handle built from the key.
\<close>

theorem get_node_error_behaviour:
  "((\<forall>r\<in>set (NODES_TABLE psql_db). \<not> (NODE_ID r = nid \<and> NETUID r = nuid)) \<longrightarrow>
      get_node Fernet psql_db nid nuid = Inl (ValueError_no_node_found nid nuid))
   \<and> (\<forall>row. fetchone_node psql_db nid nuid = Some row \<longrightarrow>
         row \<in> set (NODES_TABLE psql_db) \<and> NODE_ID row = nid \<and> NETUID row = nuid
         \<and> (Fernet (SYMMETRIC_KEY row) = None \<longrightarrow> get_node Fernet psql_db nid nuid = Inr None)
         \<and> (\<forall>handle. Fernet (SYMMETRIC_KEY row) = Some handle \<longrightarrow>
               get_node Fernet psql_db nid nuid =
                 Inr (Some \<lparr>hotkey = HOTKEY row, coldkey = COLDKEY row, node_id = nid,
                            incentive = INCENTIVE row, netuid = nuid, stake = STAKE row,
                            trust = TRUST row, vtrust = VTRUST row,
                            last_updated = LAST_UPDATED row, ip = IP row, ip_type = IP_TYPE row,
                            port = PORT row, protocol = PROTOCOL row, fernet = Some handle,
                            symmetric_key_uuid = SYMMETRIC_KEY_UUID row\<rparr>)))"
proof (intro conjI allI impI)
  assume "\<forall>r\<in>set (NODES_TABLE psql_db). \<not> (NODE_ID r = nid \<and> NETUID r = nuid)"
  then have "fetchone_node psql_db nid nuid = None"
    by (auto simp: fetchone_node_def find_None_iff)
  then show "get_node Fernet psql_db nid nuid = Inl (ValueError_no_node_found nid nuid)"
    by (simp add: get_node_def)
next
  fix row assume r: "fetchone_node psql_db nid nuid = Some row"
  then show m: "row \<in> set (NODES_TABLE psql_db)" "NODE_ID row = nid" "NETUID row = nuid"
    by (auto simp: fetchone_node_def find_Some_iff)
  { assume "Fernet (SYMMETRIC_KEY row) = None"
    with r show "get_node Fernet psql_db nid nuid = Inr None"
      by (simp add: get_node_def) }
  { fix handle assume "Fernet (SYMMETRIC_KEY row) = Some handle"
    with r m show "get_node Fernet psql_db nid nuid =
                 Inr (Some \<lparr>hotkey = HOTKEY row, coldkey = COLDKEY row, node_id = nid,
                            incentive = INCENTIVE row, netuid = nuid, stake = STAKE row,
                            trust = TRUST row, vtrust = VTRUST row,
                            last_updated = LAST_UPDATED row, ip = IP row, ip_type = IP_TYPE row,
                            port = PORT row, protocol = PROTOCOL row, fernet = Some handle,
                            symmetric_key_uuid = SYMMETRIC_KEY_UUID row\<rparr>)"
      by (simp add: get_node_def) }
qed

text \<open>
  A table of two rows for netuid 19, node 1 with a valid key and node 2 with none: node 7
  is not found, node 2 gives \<^verbatim>\<open>None\<close>, node 1 comes back with its columns and its handle.
\<close>

theorem get_node_error_behaviour_witness:
  "get_node sample_Fernet sample_table 7 19 = Inl (ValueError_no_node_found 7 19)
   \<and> fetchone_node sample_table 2 19 = Some (sample_live_row 2 None)
   \<and> get_node sample_Fernet sample_table 2 19 = Inr None
   \<and> fetchone_node sample_table 1 19 = Some (sample_live_row 1 (Some ''good''))
   \<and> get_node sample_Fernet sample_table 1 19 =
       Inr (Some \<lparr>hotkey = ''hotkey'', coldkey = ''coldkey'', node_id = 1, incentive = 1 / 4,
                  netuid = 19, stake = 1, trust = 1 / 2, vtrust = 3 / 4, last_updated = 7,
                  ip = ''10.0.0.1'', ip_type = 4, port = 8080, protocol = 6,
                  fernet = Some ''handle'', symmetric_key_uuid = Some ''uuid''\<rparr>)"
proof -
  have f2: "fetchone_node sample_table 2 19 = Some (sample_live_row 2 None)"
    and f1: "fetchone_node sample_table 1 19 = Some (sample_live_row 1 (Some ''good''))"
    by (simp_all add: fetchone_node_def sample_table_def sample_live_row_def)
  have none: "\<forall>r\<in>set (NODES_TABLE sample_table). \<not> (NODE_ID r = 7 \<and> NETUID r = 19)"
    by (simp add: sample_table_def sample_live_row_def)
  have k2: "sample_Fernet (SYMMETRIC_KEY (sample_live_row 2 None)) = None"
    and k1: "sample_Fernet (SYMMETRIC_KEY (sample_live_row 1 (Some ''good''))) = Some ''handle''"
    by (simp_all add: sample_Fernet_def sample_live_row_def)
  note g = get_node_error_behaviour [where psql_db = sample_table and nuid = 19
      and Fernet = sample_Fernet]
  have "get_node sample_Fernet sample_table 7 19 = Inl (ValueError_no_node_found 7 19)"
    using g [of 7] none by blast
  moreover have "get_node sample_Fernet sample_table 2 19 = Inr None"
    using g [of 2] f2 k2 by blast
  moreover have "get_node sample_Fernet sample_table 1 19 =
       Inr (Some \<lparr>hotkey = HOTKEY (sample_live_row 1 (Some ''good'')),
                  coldkey = COLDKEY (sample_live_row 1 (Some ''good'')), node_id = 1,
                  incentive = INCENTIVE (sample_live_row 1 (Some ''good'')), netuid = 19,
                  stake = STAKE (sample_live_row 1 (Some ''good'')),
                  trust = TRUST (sample_live_row 1 (Some ''good'')),
                  vtrust = VTRUST (sample_live_row 1 (Some ''good'')),
                  last_updated = LAST_UPDATED (sample_live_row 1 (Some ''good'')),
                  ip = IP (sample_live_row 1 (Some ''good'')),
                  ip_type = IP_TYPE (sample_live_row 1 (Some ''good'')),
                  port = PORT (sample_live_row 1 (Some ''good'')),
                  protocol = PROTOCOL (sample_live_row 1 (Some ''good'')),
                  fernet = Some ''handle'',
                  symmetric_key_uuid = SYMMETRIC_KEY_UUID (sample_live_row 1 (Some ''good''))\<rparr>)"
    using g [of 1] f1 k1 by blast
  ultimately show ?thesis using f1 f2 by (simp add: sample_live_row_def)
qed

text \<open>
  Claim C9 (archival round). \<^verbatim>\<open>migrate_nodes_to_history\<close> appends to the history table
  one row for every row of the live table, in order, carrying its fifteen columns from
  \<^verbatim>\<open>HOTKEY\<close> to \<^verbatim>\<open>CREATED_AT\<close> unchanged, and empties the live table. After it and
  \<^verbatim>\<open>insert_nodes\<close> with a batch, the live table holds one row for each node of the batch,
  in order: the thirteen fields of the node, the network of the call, a null
  \<^verbatim>\<open>symmetric_key\<close> and the defaults of the table for the columns the statement does not
  name. The history table holds what it held before followed by the archived rows:
  nothing of it depends on the batch.
\<close>

theorem archival_round:
  "migrate_nodes_to_history connection =
     \<lparr>NODES_TABLE = [],
      NODES_HISTORY_TABLE =
        NODES_HISTORY_TABLE connection
        @ map (\<lambda>r. \<lparr>HOTKEY = HOTKEY r, COLDKEY = COLDKEY r, NODE_ID = NODE_ID r,
                     INCENTIVE = INCENTIVE r, NETUID = NETUID r, STAKE = STAKE r,
                     TRUST = TRUST r, VTRUST = VTRUST r, LAST_UPDATED = LAST_UPDATED r,
                     IP = IP r, IP_TYPE = IP_TYPE r, PORT = PORT r, PROTOCOL = PROTOCOL r,
                     NETWORK = NETWORK r, CREATED_AT = CREATED_AT r\<rparr>)
            (NODES_TABLE connection)\<rparr>
   \<and> insert_nodes dflt (migrate_nodes_to_history connection) nodes network =
     \<lparr>NODES_TABLE =
        map (\<lambda>node. \<lparr>HOTKEY = hotkey node, COLDKEY = coldkey node, NODE_ID = node_id node,
                      INCENTIVE = incentive node, NETUID = netuid node, STAKE = stake node,
                      TRUST = trust node, VTRUST = vtrust node,
                      LAST_UPDATED = last_updated node, IP = ip node, IP_TYPE = ip_type node,
                      PORT = port node, PROTOCOL = protocol node, NETWORK = network,
                      CREATED_AT = default_CREATED_AT dflt, SYMMETRIC_KEY = None,
                      SYMMETRIC_KEY_UUID = default_SYMMETRIC_KEY_UUID dflt,
                      OUR_VALIDATOR = default_OUR_VALIDATOR dflt\<rparr>)
          nodes,
      NODES_HISTORY_TABLE =
        NODES_HISTORY_TABLE connection
        @ map (\<lambda>r. \<lparr>HOTKEY = HOTKEY r, COLDKEY = COLDKEY r, NODE_ID = NODE_ID r,
                     INCENTIVE = INCENTIVE r, NETUID = NETUID r, STAKE = STAKE r,
                     TRUST = TRUST r, VTRUST = VTRUST r, LAST_UPDATED = LAST_UPDATED r,
                     IP = IP r, IP_TYPE = IP_TYPE r, PORT = PORT r, PROTOCOL = PROTOCOL r,
                     NETWORK = NETWORK r, CREATED_AT = CREATED_AT r\<rparr>)
            (NODES_TABLE connection)\<rparr>
   \<and> length (NODES_TABLE (insert_nodes dflt (migrate_nodes_to_history connection) nodes network))
       = length nodes
   \<and> map SYMMETRIC_KEY (NODES_TABLE (insert_nodes dflt (migrate_nodes_to_history connection) nodes network))
       = replicate (length nodes) None"
  by (simp add: insert_nodes_def migrate_nodes_to_history_def Let_def inserted_row_def
      history_of_def map_replicate_const comp_def)

text \<open>One archived row, two live rows and a batch of one node.\<close>

theorem archival_round_witness:
  "migrate_nodes_to_history sample_table =
     \<lparr>NODES_TABLE = [],
      NODES_HISTORY_TABLE = [sample_history_row 9, sample_history_row 1, sample_history_row 2]\<rparr>
   \<and> insert_nodes sample_defaults (migrate_nodes_to_history sample_table) [sample_fresh] ''main'' =
     \<lparr>NODES_TABLE =
        [\<lparr>HOTKEY = ''fresh'', COLDKEY = ''cold'', NODE_ID = 3, INCENTIVE = 1 / 8, NETUID = 19,
          STAKE = 2, TRUST = 3 / 8, VTRUST = 5 / 8, LAST_UPDATED = 12, IP = ''10.0.0.3'',
          IP_TYPE = 4, PORT = 8081, PROTOCOL = 6, NETWORK = ''main'', CREATED_AT = 5,
          SYMMETRIC_KEY = None, SYMMETRIC_KEY_UUID = None, OUR_VALIDATOR = False\<rparr>],
      NODES_HISTORY_TABLE = [sample_history_row 9, sample_history_row 1, sample_history_row 2]\<rparr>"
proof -
  note a = archival_round [of sample_table sample_defaults "[sample_fresh]" "''main''"]
  have h: "NODES_HISTORY_TABLE sample_table = [sample_history_row 9]"
    and l: "NODES_TABLE sample_table = [sample_live_row 1 (Some ''good''), sample_live_row 2 None]"
    by (simp_all add: sample_table_def)
  show ?thesis
    apply (subst a [THEN conjunct1])
    apply (subst a [THEN conjunct2, THEN conjunct1])
    apply (simp add: h l)
    apply (simp add: sample_live_row_def sample_history_row_def sample_fresh_def
        sample_defaults_def)
    done
qed

end
